theory Spec2Isabelle
  imports Complex_Main "HOL-Library.Multiset"
begin

section \<open>The MinieSASS test data generator (generate_test_fits.py)\<close>

text \<open>
  A shallow embedding of \<^verbatim>\<open>src/pipeline/python/generate_test_fits.py\<close>.
  Python integers are modelled as \<open>nat\<close> or \<open>int\<close>, numpy arrays and Python lists
  as HOL lists, the event dictionary as a record of parallel columns.  Python floats
  are modelled as reals; the arithmetic of the PI channel, whose result is rounded to
  an integer, is done in double precision as the code does it, the other arithmetic
  exactly.  The global generator of \<^verbatim>\<open>np.random\<close> is state that is threaded through
  every call; its samplers are parameters of the model.
\<close>

subsection \<open>numpy array helpers\<close>

datatype error = ValueError

text \<open>\<^verbatim>\<open>np.clip(a, a_min, a_max)\<close> is \<^verbatim>\<open>minimum(a_max, maximum(a, a_min))\<close>.\<close>

definition np_clip :: "'a::linorder \<Rightarrow> 'a \<Rightarrow> 'a \<Rightarrow> 'a" where
  "np_clip a a_min a_max = min a_max (max a a_min)"

text \<open>\<^verbatim>\<open>np.round\<close> rounds to the nearest integer, a tie going to the even neighbour.\<close>

definition round_half_even :: "real \<Rightarrow> int" where
  "round_half_even x =
     (let f = \<lfloor>x\<rfloor>; d = x - of_int f
      in if d < 1 / 2 then f
         else if 1 / 2 < d then f + 1
         else if even f then f else f + 1)"

definition np_round :: "real \<Rightarrow> real" where
  "np_round x = of_int (round_half_even x)"

text \<open>
  Double precision: \<open>float64 x\<close> is the IEEE 754 binary64 number nearest to \<open>x\<close>, a
  tie going to the even significand, which is what every float operation of the code
  returns for the exact result \<open>x\<close>.  \<open>binade x\<close> is the exponent \<open>e\<close> with
  \<open>2 ^ e \<le> \<bar>x\<bar> < 2 ^ (e + 1)\<close>; the significand has 53 bits, and below \<open>2 ^ - 1022\<close>
  the spacing stays that of the subnormal numbers.  Overflow to infinity is not
  modelled.
\<close>

fun bit_length :: "nat \<Rightarrow> nat" where
  "bit_length n = (if n = 0 then 0 else Suc (bit_length (n div 2)))"

declare bit_length.simps [simp del]

definition binade :: "real \<Rightarrow> int" where
  "binade x =
     (if 1 \<le> \<bar>x\<bar> then int (bit_length (nat \<lfloor>\<bar>x\<bar>\<rfloor>)) - 1
      else - int (bit_length (nat \<lceil>1 / \<bar>x\<bar>\<rceil> - 1)))"

definition pow2 :: "int \<Rightarrow> real" where
  "pow2 k = (if 0 \<le> k then 2 ^ nat k else 1 / 2 ^ nat (- k))"

definition float64 :: "real \<Rightarrow> real" where
  "float64 x =
     (if x = 0 then 0
      else let q = pow2 (max (binade x) (- 1022) - 52)
           in of_int (round_half_even (x / q)) * q)"

text \<open>\<^verbatim>\<open>.astype(int)\<close> on a float array truncates towards zero.\<close>

definition astype_int :: "real \<Rightarrow> int" where
  "astype_int x = (if 0 \<le> x then \<lfloor>x\<rfloor> else \<lceil>x\<rceil>)"

text \<open>
  \<^verbatim>\<open>np.argsort(a)\<close>: the indices that sort \<open>a\<close>.  The model sorts the index list by
  key with the library's insertion sort; numpy's default sort may order equal keys
  differently, which none of the properties below depends on.
\<close>

definition argsort :: "real list \<Rightarrow> nat list" where
  "argsort a = sort_key (\<lambda>i. a ! i) [0..<length a]"

text \<open>\<^verbatim>\<open>a[order]\<close>: indexing an array with an index array.\<close>

definition take_order :: "nat list \<Rightarrow> 'a list \<Rightarrow> 'a list" where
  "take_order order a = map (\<lambda>i. a ! i) order"

subsection \<open>The generator state of np.random\<close>

text \<open>
  The samplers of numpy's global \<^verbatim>\<open>RandomState\<close>, over a generator state \<open>'g\<close>.
  Each call returns its sample and the advanced state.
\<close>

record 'g np_random =
  rs_seed :: "nat \<Rightarrow> 'g"
  rs_poisson :: "real \<Rightarrow> 'g \<Rightarrow> nat \<times> 'g"
  rs_normal :: "real \<Rightarrow> real \<Rightarrow> nat \<Rightarrow> 'g \<Rightarrow> real list \<times> 'g"
  rs_uniform :: "real \<Rightarrow> real \<Rightarrow> nat \<Rightarrow> 'g \<Rightarrow> real list \<times> 'g"
  rs_exponential :: "real \<Rightarrow> nat \<Rightarrow> 'g \<Rightarrow> real list \<times> 'g"
  rs_choice :: "nat \<Rightarrow> nat \<Rightarrow> real list \<Rightarrow> 'g \<Rightarrow> nat list \<times> 'g"

text \<open>
  What numpy documents of the samplers: an array of the requested size comes back,
  \<^verbatim>\<open>uniform(low, high, n)\<close> samples the half-open interval \<open>[low, high)\<close>, and
  \<^verbatim>\<open>choice(k, n, p)\<close> samples \<^verbatim>\<open>arange(k)\<close>.
\<close>

definition np_random_ok :: "'g np_random \<Rightarrow> bool" where
  "np_random_ok R \<longleftrightarrow>
     (\<forall>loc scale n g. length (fst (rs_normal R loc scale n g)) = n) \<and>
     (\<forall>scale n g. length (fst (rs_exponential R scale n g)) = n) \<and>
     (\<forall>low high n g. length (fst (rs_uniform R low high n g)) = n) \<and>
     (\<forall>low high n g. low < high \<longrightarrow>
        (\<forall>x \<in> set (fst (rs_uniform R low high n g)). low \<le> x \<and> x < high)) \<and>
     (\<forall>k n p g. length (fst (rs_choice R k n p g)) = n) \<and>
     (\<forall>k n p g. 0 < k \<longrightarrow> (\<forall>c \<in> set (fst (rs_choice R k n p g)). c < k))"

text \<open>
  \<^verbatim>\<open>np.random.poisson(lam)\<close> raises \<^verbatim>\<open>ValueError\<close> for a negative \<open>lam\<close> and for one
  above numpy's \<^verbatim>\<open>poisson_lam_max\<close>, the largest 64-bit integer less ten times its
  square root.
\<close>

definition poisson_lam_max :: real where
  "poisson_lam_max = 2 ^ 63 - 1 - 10 * sqrt (2 ^ 63 - 1)"

definition np_random_poisson :: "'g np_random \<Rightarrow> real \<Rightarrow> 'g \<Rightarrow> error + nat \<times> 'g" where
  "np_random_poisson R lam g =
     (if lam < 0 \<or> poisson_lam_max < lam then Inl ValueError
      else Inr (rs_poisson R lam g))"

subsection \<open>XRayEventSimulator: the constants set by the constructor\<close>

definition detector_size :: "nat \<times> nat" where "detector_size = (384, 384)"
definition pixel_scale :: real where "pixel_scale = 41 / 10"
definition exposure_time :: real where "exposure_time = 1000"
definition energy_gain :: real where "energy_gain = float64 (5 / 1000)"
definition energy_offset :: real where "energy_offset = float64 (2 / 10)"
definition energy_range :: "real \<times> real" where "energy_range = (2 / 10, 10)"
definition background_rate :: real where "background_rate = 1 / 10000"

text \<open>
  The constructor seeds the global generator with 42, whatever state \<open>g\<close> it had.
\<close>

definition init :: "'g np_random \<Rightarrow> 'g \<Rightarrow> 'g" where
  "init R g = rs_seed R 42"

subsection \<open>The event list\<close>

record events =
  det_x :: "real list"
  det_y :: "real list"
  time :: "real list"
  energy :: "real list"
  ra :: "real list"
  dec :: "real list"
  source_id :: "nat list"

definition no_events :: events where
  "no_events = \<lparr>det_x = [], det_y = [], time = [], energy = [], ra = [], dec = [],
                 source_id = []\<rparr>"

text \<open>The seven \<^verbatim>\<open>all_*.extend(...)\<close> calls of one block.\<close>

definition extend_all :: "events \<Rightarrow> events \<Rightarrow> events" where
  "extend_all acc new =
     \<lparr>det_x = det_x acc @ det_x new, det_y = det_y acc @ det_y new,
      time = time acc @ time new, energy = energy acc @ energy new,
      ra = ra acc @ ra new, dec = dec acc @ dec new,
      source_id = source_id acc @ source_id new\<rparr>"

text \<open>What the function prints, one entry per \<^verbatim>\<open>print\<close> with the values it formats.\<close>

datatype printed =
    PrintSimulating nat
  | PrintSource nat real real real nat
  | PrintBackground nat
  | PrintEventSummary nat nat nat
  | PrintEnergyRange real real

text \<open>The two linear maps between sky coordinates and detector pixels (lines 74-75, 93-94, 118-119).\<close>

definition sky_to_det :: "real \<Rightarrow> real \<Rightarrow> real" where
  "sky_to_det sky center = 192 + (sky - center) * 3600 / pixel_scale"

definition det_to_sky :: "real \<Rightarrow> real \<Rightarrow> real" where
  "det_to_sky det center = center + (det - 192) * pixel_scale / 3600"

text \<open>The body of the loop over the sources (lines 73-107), for source number \<open>i\<close>.\<close>

definition simulate_source ::
  "'g np_random \<Rightarrow> real \<Rightarrow> real \<Rightarrow> nat \<Rightarrow> real \<times> real \<times> real \<Rightarrow> 'g
     \<Rightarrow> error + events \<times> printed list \<times> 'g" where
  "simulate_source R ra_center dec_center i src g =
     (case src of (ra_s, dec_s, flux) \<Rightarrow>
        let dx = sky_to_det ra_s ra_center;
            dy = sky_to_det dec_s dec_center
        in case np_random_poisson R (flux * exposure_time) g of
             Inl e \<Rightarrow> Inl e
           | Inr (total_counts, g1) \<Rightarrow>
               if total_counts > 0 then
                 let (source_x, g2) = rs_normal R dx 2 total_counts g1;
                     (source_y, g3) = rs_normal R dy 2 total_counts g2;
                     (times, g4) = rs_uniform R 0 exposure_time total_counts g3;
                     (expo, g5) = rs_exponential R (3 / 2) total_counts g4;
                     energies = map (\<lambda>e. np_clip (e + 1 / 2) (2 / 10) 10) expo;
                     ra_vals = map (\<lambda>x. det_to_sky x ra_center) source_x;
                     dec_vals = map (\<lambda>y. det_to_sky y dec_center) source_y
                 in Inr (\<lparr>det_x = source_x, det_y = source_y, time = times,
                          energy = energies, ra = ra_vals, dec = dec_vals,
                          source_id = replicate total_counts (i + 1)\<rparr>,
                         [PrintSource (i + 1) ra_s dec_s flux total_counts], g5)
               else Inr (no_events, [], g1))"

text \<open>The loop \<^verbatim>\<open>for i, (ra, dec, flux) in enumerate(sources)\<close>.\<close>

fun simulate_sources ::
  "'g np_random \<Rightarrow> real \<Rightarrow> real \<Rightarrow> nat \<Rightarrow> (real \<times> real \<times> real) list \<Rightarrow> events
     \<Rightarrow> printed list \<Rightarrow> 'g \<Rightarrow> error + events \<times> printed list \<times> 'g" where
  "simulate_sources R ra_center dec_center i [] acc out g = Inr (acc, out, g)"
| "simulate_sources R ra_center dec_center i (src # rest) acc out g =
     (case simulate_source R ra_center dec_center i src g of
        Inl e \<Rightarrow> Inl e
      | Inr (new, lines, g') \<Rightarrow>
          simulate_sources R ra_center dec_center (i + 1) rest
            (extend_all acc new) (out @ lines) g')"

text \<open>The background block (lines 110-129).\<close>

definition simulate_background ::
  "'g np_random \<Rightarrow> real \<Rightarrow> real \<Rightarrow> 'g \<Rightarrow> error + events \<times> printed list \<times> 'g" where
  "simulate_background R ra_center dec_center g =
     (case np_random_poisson R (background_rate * 384 * 384 * exposure_time) g of
        Inl e \<Rightarrow> Inl e
      | Inr (bg_counts, g1) \<Rightarrow>
          if bg_counts > 0 then
            let (bg_x, g2) = rs_uniform R 0 384 bg_counts g1;
                (bg_y, g3) = rs_uniform R 0 384 bg_counts g2;
                (bg_times, g4) = rs_uniform R 0 exposure_time bg_counts g3;
                (bg_energies, g5) = rs_uniform R (2 / 10) 10 bg_counts g4;
                bg_ra = map (\<lambda>x. det_to_sky x ra_center) bg_x;
                bg_dec = map (\<lambda>y. det_to_sky y dec_center) bg_y
            in Inr (\<lparr>det_x = bg_x, det_y = bg_y, time = bg_times,
                     energy = bg_energies, ra = bg_ra, dec = bg_dec,
                     source_id = replicate bg_counts 0\<rparr>,
                    [PrintBackground bg_counts], g5)
          else Inr (no_events, [], g1))"

text \<open>The event list before it is sorted (lines 61-129).\<close>

definition collect_events ::
  "'g np_random \<Rightarrow> (real \<times> real \<times> real) list \<Rightarrow> real \<Rightarrow> real \<Rightarrow> 'g
     \<Rightarrow> error + events \<times> printed list \<times> 'g" where
  "collect_events R sources ra_center dec_center g =
     (case simulate_sources R ra_center dec_center 0 sources no_events
             [PrintSimulating (length sources)] g of
        Inl e \<Rightarrow> Inl e
      | Inr (acc, out, g1) \<Rightarrow>
          (case simulate_background R ra_center dec_center g1 of
             Inl e \<Rightarrow> Inl e
           | Inr (bg, lines, g2) \<Rightarrow> Inr (extend_all acc bg, out @ lines, g2)))"

text \<open>Lines 141-151: every column indexed by the same \<^verbatim>\<open>time_order\<close>.\<close>

definition sort_by_time :: "events \<Rightarrow> events" where
  "sort_by_time ev =
     (let time_order = argsort (time ev)
      in \<lparr>det_x = take_order time_order (det_x ev),
          det_y = take_order time_order (det_y ev),
          time = take_order time_order (time ev),
          energy = take_order time_order (energy ev),
          ra = take_order time_order (ra ev),
          dec = take_order time_order (dec ev),
          source_id = take_order time_order (source_id ev)\<rparr>)"

definition create_simple_events ::
  "'g np_random \<Rightarrow> (real \<times> real \<times> real) list \<Rightarrow> real \<Rightarrow> real \<Rightarrow> 'g
     \<Rightarrow> error + events \<times> printed list \<times> 'g" where
  "create_simple_events R sources ra_center dec_center g =
     (case collect_events R sources ra_center dec_center g of
        Inl e \<Rightarrow> Inl e
      | Inr (ev, out, g') \<Rightarrow> Inr (sort_by_time ev, out, g'))"

subsection \<open>add_realistic_columns\<close>

record full_events = events +
  pi_chan :: "int list"
  grade :: "nat list"
  status :: "nat list"
  frame :: "int list"

text \<open>
  Lines 156-176.  The subtraction and the division of lines 159-161 are float
  operations, each rounding its exact result to a double.
  \<^verbatim>\<open>np.random.choice([0, 1], n, p)\<close> draws an index into the given array and returns
  the entry there.
\<close>

definition add_realistic_columns :: "'g np_random \<Rightarrow> events \<Rightarrow> 'g \<Rightarrow> full_events \<times> 'g" where
  "add_realistic_columns R ev g =
     (let n_events = length (time ev);
          pi_raw = map (\<lambda>e. astype_int
                              (np_round (float64 (float64 (e - energy_offset) / energy_gain))))
                     (energy ev);
          pi_clipped = map (\<lambda>c. np_clip c 0 4095) pi_raw;
          grade_probs = [7 / 10, 2 / 10, 5 / 100, 3 / 100, 2 / 100];
          (grades, g1) = rs_choice R 5 n_events grade_probs g;
          (picks, g2) = rs_choice R 2 n_events [95 / 100, 5 / 100] g1;
          statuses = map (\<lambda>j. [0, 1] ! j) picks;
          frames = map (\<lambda>t. astype_int (t / (26 / 10))) (time ev)
      in (\<lparr>det_x = det_x ev, det_y = det_y ev, time = time ev, energy = energy ev,
           ra = ra ev, dec = dec ev, source_id = source_id ev,
           pi_chan = pi_clipped, grade = grades, status = statuses, frame = frames\<rparr>,
          g2))"

subsection \<open>write_fits_file\<close>

datatype card = CardStr string | CardReal real

text \<open>
  The file handed to \<^verbatim>\<open>hdul.writeto\<close>: the cards of the primary header, the column
  declarations (name, format, unit) of the table extension with the arrays behind
  them, and the cards of the extension header.  The conversion of a column to its
  storage format is astropy's and not part of the model.
\<close>

record fits_file =
  path :: string
  primary_header :: "(string \<times> card) list"
  columns :: "(string \<times> string \<times> string) list"
  table :: full_events
  events_header :: "(string \<times> card) list"

text \<open>Lines 184-238; \<open>stamp\<close> is what \<^verbatim>\<open>datetime.now().isoformat()\<close> returns at line 196.\<close>

definition write_fits_file ::
  "string \<Rightarrow> full_events \<Rightarrow> string \<Rightarrow> real \<Rightarrow> real \<Rightarrow> string \<Rightarrow> fits_file" where
  "write_fits_file self_obs_id ev filename ra_center dec_center stamp =
     \<lparr>path = filename,
      primary_header =
        [(''TELESCOP'', CardStr ''eROSITA-SIM''),
         (''INSTRUME'', CardStr ''TM1''),
         (''OBS_ID'', CardStr self_obs_id),
         (''OBJECT'', CardStr ''Simulated Field''),
         (''RA_NOM'', CardReal ra_center),
         (''DEC_NOM'', CardReal dec_center),
         (''EXPOSURE'', CardReal exposure_time),
         (''TSTART'', CardReal 0),
         (''TSTOP'', CardReal exposure_time),
         (''DATE-OBS'', CardStr stamp),
         (''CREATOR'', CardStr ''MinieSASS Test Data Generator'')],
      columns =
        [(''TIME'', ''D'', ''s''), (''X'', ''E'', ''pixel''), (''Y'', ''E'', ''pixel''),
         (''RA'', ''D'', ''deg''), (''DEC'', ''D'', ''deg''), (''ENERGY'', ''E'', ''keV''),
         (''PI'', ''I'', ''channel''), (''GRADE'', ''I'', []), (''STATUS'', ''I'', []),
         (''FRAME'', ''J'', []), (''SRC_ID'', ''I'', [])],
      table = ev,
      events_header =
        [(''EXTNAME'', CardStr ''EVENTS''),
         (''HDUCLASS'', CardStr ''OGIP''),
         (''HDUCLAS1'', CardStr ''EVENTS''),
         (''TLMIN1'', CardReal 0),
         (''TLMAX1'', CardReal exposure_time)]\<rparr>"

subsection \<open>Formatting numbers as Python's format specifications do\<close>

fun digits :: "nat \<Rightarrow> string" where
  "digits n =
     (if n < 10 then [''0123456789'' ! n]
      else digits (n div 10) @ [''0123456789'' ! (n mod 10)])"

declare digits.simps [simp del]

definition rjust :: "nat \<Rightarrow> string \<Rightarrow> string" where
  "rjust width s = replicate (width - length s) CHR '' '' @ s"

definition zfill :: "nat \<Rightarrow> string \<Rightarrow> string" where
  "zfill width s = replicate (width - length s) CHR ''0'' @ s"

text \<open>\<^verbatim>\<open>{v:<width>d}\<close> for an integer that is not negative.\<close>

definition format_d :: "nat \<Rightarrow> nat \<Rightarrow> string" where
  "format_d width v = rjust width (digits v)"

text \<open>
  \<^verbatim>\<open>{x:<width>.<prec>f}\<close>: the sign, the value rounded to \<open>prec\<close> decimals (a tie to
  the even neighbour), padded with blanks on the left.
\<close>

definition format_f :: "nat \<Rightarrow> nat \<Rightarrow> real \<Rightarrow> string" where
  "format_f width prec x =
     (let scaled = nat (round_half_even (\<bar>x\<bar> * 10 ^ prec));
          body = digits (scaled div 10 ^ prec) @ ''.'' @
                 zfill prec (digits (scaled mod 10 ^ prec))
      in rjust width ((if x < 0 then ''-'' else []) @ body))"

subsection \<open>create_test_observations and main\<close>

record obs_config =
  obs_id :: string
  ra_center :: real
  dec_center :: real
  sources :: "(real \<times> real \<times> real) list"

definition create_test_observations :: "obs_config list" where
  "create_test_observations =
     [\<lparr>obs_id = ''TEST001'', ra_center = 30, dec_center = 10,
       sources = [(3005 / 100, 1003 / 100, 150 / 1000),
                  (2995 / 100, 1008 / 100, 80 / 1000),
                  (3008 / 100, 992 / 100, 40 / 1000),
                  (2992 / 100, 995 / 100, 25 / 1000),
                  (3002 / 100, 1015 / 100, 200 / 1000)]\<rparr>,
      \<lparr>obs_id = ''TEST002'', ra_center = 45, dec_center = - 5,
       sources = [(4503 / 100, - (497 / 100), 120 / 1000),
                  (4498 / 100, - (505 / 100), 60 / 1000),
                  (4512 / 100, - (488 / 100), 180 / 1000)]\<rparr>]"

text \<open>
  The body of the loop over the observations (lines 288-326); \<open>g\<close> is the state of
  the global generator when the iteration starts.  The minimum of an empty array
  raises \<^verbatim>\<open>ValueError\<close> at line 325.
\<close>

definition generate_observation ::
  "'g np_random \<Rightarrow> string \<Rightarrow> obs_config \<Rightarrow> 'g \<Rightarrow> error + fits_file \<times> printed list \<times> 'g" where
  "generate_observation R stamp obs g =
     (case create_simple_events R (sources obs) (ra_center obs) (dec_center obs) (init R g) of
        Inl e \<Rightarrow> Inl e
      | Inr (ev, out, g1) \<Rightarrow>
          let (events, g2) = add_realistic_columns R ev g1;
              file = write_fits_file (obs_id obs) events
                       (''data/simulated/raw/'' @ obs_id obs @ ''_events.fits'')
                       (ra_center obs) (dec_center obs) stamp;
              total_events = length (time events);
              source_events = length (filter (\<lambda>s. s > 0) (source_id events));
              bg_events = length (filter (\<lambda>s. s = 0) (source_id events))
          in if energy events = [] then Inl ValueError
             else Inr (file,
                       out @ [PrintEventSummary total_events source_events bg_events,
                              PrintEnergyRange (Min (set (energy events)))
                                (Max (set (energy events)))],
                       g2))"

text \<open>The loop; \<open>now k\<close> is the clock reading of the \<open>k\<close>-th call of \<^verbatim>\<open>datetime.now()\<close>.\<close>

fun generate_observations ::
  "'g np_random \<Rightarrow> (nat \<Rightarrow> string) \<Rightarrow> nat \<Rightarrow> obs_config list \<Rightarrow> fits_file list
     \<Rightarrow> printed list \<Rightarrow> 'g \<Rightarrow> error + fits_file list \<times> printed list \<times> 'g" where
  "generate_observations R now k [] generated out g = Inr (generated, out, g)"
| "generate_observations R now k (obs # rest) generated out g =
     (case generate_observation R (now k) obs g of
        Inl e \<Rightarrow> Inl e
      | Inr (file, lines, g') \<Rightarrow>
          generate_observations R now (k + 1) rest (generated @ [file]) (out @ lines) g')"

text \<open>The strings written to the catalog file, one per \<^verbatim>\<open>f.write\<close> (lines 331-338).\<close>

definition catalog_row :: "string \<Rightarrow> nat \<Rightarrow> real \<times> real \<times> real \<Rightarrow> string" where
  "catalog_row oid i src =
     (case src of (ra_s, dec_s, flux) \<Rightarrow>
        oid @ ''  '' @ format_d 2 (i + 1) @ ''  '' @ format_f 8 4 ra_s @ ''  '' @
        format_f 8 4 dec_s @ ''  '' @ format_f 8 4 flux @ [CHR 0x0A])"

definition catalog_rows :: "obs_config list \<Rightarrow> string list" where
  "catalog_rows observations =
     concat (map (\<lambda>obs. map (\<lambda>(i, src). catalog_row (obs_id obs) i src)
                           (enumerate 0 (sources obs))) observations)"

definition write_catalog :: "obs_config list \<Rightarrow> string list" where
  "write_catalog observations =
     [''# MinieSASS Test Source Catalog'' @ [CHR 0x0A],
      ''# Format: OBS_ID  SOURCE_ID  RA_DEG  DEC_DEG  FLUX_CTS_PER_SEC'' @ [CHR 0x0A]]
     @ catalog_rows observations"

record main_output =
  generated_files :: "fits_file list"
  catalog :: "string list"
  stdout :: "printed list"

text \<open>\<open>g\<close> is the state the global generator has when the program starts.\<close>

definition main :: "'g np_random \<Rightarrow> (nat \<Rightarrow> string) \<Rightarrow> 'g \<Rightarrow> error + main_output" where
  "main R now g =
     (let observations = create_test_observations
      in case generate_observations R now 0 observations [] [] g of
           Inl e \<Rightarrow> Inl e
         | Inr (files, out, g') \<Rightarrow>
             Inr \<lparr>generated_files = files, catalog = write_catalog observations,
                  stdout = out\<rparr>)"

subsection \<open>The module: imports, then main\<close>

text \<open>
  The third-party imports of lines 19-27, in the order they run.  \<open>importer p\<close> is
  \<open>Some msg\<close> when importing \<open>p\<close> raises \<^verbatim>\<open>ImportError\<close> with message \<open>msg\<close>.
\<close>

datatype package =
    Numpy | MatplotlibPyplot | AstropyIoFits | AstropyWcs | AstropyTime
  | AstropyCoordinates | AstropyUnits

definition guarded_imports :: "package list" where
  "guarded_imports =
     [MatplotlibPyplot, AstropyIoFits, AstropyWcs, AstropyTime, AstropyCoordinates,
      AstropyUnits]"

text \<open>The \<^verbatim>\<open>try\<close> block: the first import that raises ends it.\<close>

fun try_imports :: "(package \<Rightarrow> string option) \<Rightarrow> package list \<Rightarrow> string option" where
  "try_imports importer [] = None"
| "try_imports importer (p # ps) =
     (case importer p of Some msg \<Rightarrow> Some msg | None \<Rightarrow> try_imports importer ps)"

text \<open>
  What the process leaves behind: its exit status, the lines on standard output and
  standard error that carry a diagnostic, and the result of \<^verbatim>\<open>main\<close> when it was
  called (\<open>None\<close> when it never was).
  An exception that nothing catches makes the interpreter print a traceback ending in
  the exception's message and exit with status 1.
\<close>

record 'o process =
  exit_status :: nat
  diagnostics_out :: "string list"
  diagnostics_err :: "string list"
  main_result :: "'o option"

definition traceback :: "string \<Rightarrow> string list" where
  "traceback msg = [''Traceback (most recent call last):'', msg]"

definition run_module ::
  "'g np_random \<Rightarrow> (nat \<Rightarrow> string) \<Rightarrow> 'g \<Rightarrow> (package \<Rightarrow> string option)
     \<Rightarrow> (error + main_output) process" where
  "run_module R now g importer =
     (case importer Numpy of
        Some msg \<Rightarrow>
          \<lparr>exit_status = 1, diagnostics_out = [],
           diagnostics_err = traceback (''ImportError: '' @ msg), main_result = None\<rparr>
      | None \<Rightarrow>
          (case try_imports importer guarded_imports of
             Some msg \<Rightarrow>
               \<lparr>exit_status = 1,
                diagnostics_out = [''Missing required packages: '' @ msg,
                                   ''Install with: pip install astropy matplotlib''],
                diagnostics_err = [], main_result = None\<rparr>
           | None \<Rightarrow>
               (case main R now g of
                  Inl ValueError \<Rightarrow>
                    \<lparr>exit_status = 1, diagnostics_out = [],
                     diagnostics_err = traceback ''ValueError'',
                     main_result = Some (Inl ValueError)\<rparr>
                | Inr out \<Rightarrow>
                    \<lparr>exit_status = 0, diagnostics_out = [], diagnostics_err = [],
                     main_result = Some (Inr out)\<rparr>)))"

section \<open>Notions the properties are stated with\<close>

text \<open>All seven columns of an event list have one length.\<close>

definition wf_events :: "events \<Rightarrow> bool" where
  "wf_events ev \<longleftrightarrow>
     length (det_x ev) = length (time ev) \<and> length (det_y ev) = length (time ev) \<and>
     length (energy ev) = length (time ev) \<and> length (ra ev) = length (time ev) \<and>
     length (dec ev) = length (time ev) \<and> length (source_id ev) = length (time ev)"

text \<open>Row \<open>i\<close> of an event list, and the list of its rows.\<close>

definition event_row :: "events \<Rightarrow> nat \<Rightarrow> real \<times> real \<times> real \<times> real \<times> real \<times> real \<times> nat" where
  "event_row ev i =
     (det_x ev ! i, det_y ev ! i, time ev ! i, energy ev ! i, ra ev ! i, dec ev ! i,
      source_id ev ! i)"

definition event_rows :: "events \<Rightarrow> (real \<times> real \<times> real \<times> real \<times> real \<times> real \<times> nat) list" where
  "event_rows ev = map (event_row ev) [0..<length (time ev)]"

text \<open>
  What holds of every generated row: the energy and time ranges, the detector range
  of a background row, and the sky position as the image of the detector position.
\<close>

definition row_ok :: "real \<Rightarrow> real \<Rightarrow> nat \<Rightarrow> real \<times> real \<times> real \<times> real \<times> real \<times> real \<times> nat \<Rightarrow> bool" where
  "row_ok rc dc n r =
     (case r of (x, y, t, e, a, d, s) \<Rightarrow>
        2 / 10 \<le> e \<and> e \<le> 10 \<and> 0 \<le> t \<and> t < 1000 \<and> s \<le> n \<and>
        a = det_to_sky x rc \<and> d = det_to_sky y dc \<and>
        (if s = 0 then 0 \<le> x \<and> x < 384 \<and> 0 \<le> y \<and> y < 384 else True))"

text \<open>The event counts that the printed lines announce, per source id and for the background.\<close>

fun announced :: "printed \<Rightarrow> nat \<Rightarrow> nat" where
  "announced (PrintSource j r d f k) s = (if s = j then k else 0)"
| "announced (PrintBackground k) s = (if s = 0 then k else 0)"
| "announced _ s = 0"

definition announced_events :: "printed list \<Rightarrow> nat \<Rightarrow> nat" where
  "announced_events out s = sum_list (map (\<lambda>l. announced l s) out)"

text \<open>
  The claim's channel formula with its constants, evaluated as written in double
  precision: the literals 0.2 and 0.005 are doubles, and the difference and the
  quotient are each rounded to a double.
\<close>

definition clamp :: "int \<Rightarrow> int \<Rightarrow> int \<Rightarrow> int" where
  "clamp v lo hi = max lo (min v hi)"

definition spec_channel :: "real \<Rightarrow> int" where
  "spec_channel e =
     clamp (round_half_even (float64 (float64 (e - float64 (2 / 10)) / float64 (5 / 1000))))
       0 4095"



text \<open>Reading a catalog row back: fields separated by white space, decimal numerals.\<close>

fun fields :: "string \<Rightarrow> string \<Rightarrow> string list" where
  "fields [] w = (if w = [] then [] else [w])"
| "fields (c # cs) w =
     (if c = CHR '' '' \<or> c = CHR 0x0A
      then (if w = [] then fields cs [] else w # fields cs [])
      else fields cs (w @ [c]))"

fun read_digits :: "string \<Rightarrow> nat \<Rightarrow> nat option" where
  "read_digits [] acc = Some acc"
| "read_digits (c # cs) acc =
     (let n = (of_char c :: nat)
      in if 48 \<le> n \<and> n \<le> 57 then read_digits cs (10 * acc + (n - 48)) else None)"

definition read_nat :: "string \<Rightarrow> nat option" where
  "read_nat s = (if s = [] then None else read_digits s 0)"

definition read_decimal :: "string \<Rightarrow> real option" where
  "read_decimal s =
     (let negative = (s \<noteq> [] \<and> hd s = CHR ''-'');
          body = (if negative then tl s else s);
          whole = takeWhile (\<lambda>c. c \<noteq> CHR ''.'') body;
          rest = dropWhile (\<lambda>c. c \<noteq> CHR ''.'') body
      in if rest = [] then None
         else (case (read_nat whole, read_nat (tl rest)) of
                 (Some a, Some b) \<Rightarrow>
                   Some ((if negative then - 1 else 1) *
                         (real a + real b / 10 ^ length (tl rest)))
               | _ \<Rightarrow> None))"

definition read_catalog_row :: "string \<Rightarrow> (string \<times> nat \<times> real \<times> real \<times> real) option" where
  "read_catalog_row line =
     (case fields line [] of
        [oid, sid, a, d, f] \<Rightarrow>
          (case (read_nat sid, read_decimal a, read_decimal d, read_decimal f) of
             (Some n, Some x, Some y, Some z) \<Rightarrow> Some (oid, n, x, y, z)
           | _ \<Rightarrow> None)
      | _ \<Rightarrow> None)"

text \<open>The rows a catalog of the given observations should read back as.\<close>

definition configured_rows :: "obs_config list \<Rightarrow> (string \<times> nat \<times> real \<times> real \<times> real) list" where
  "configured_rows observations =
     concat (map (\<lambda>obs. map (\<lambda>(i, (a, d, f)). (obs_id obs, i + 1, a, d, f))
                           (enumerate 0 (sources obs))) observations)"

text \<open>A run's output with the creation time stamp of every primary header left out.\<close>

definition without_stamp :: "fits_file \<Rightarrow> fits_file" where
  "without_stamp file =
     file\<lparr>primary_header := filter (\<lambda>(key, v). key \<noteq> ''DATE-OBS'') (primary_header file)\<rparr>"

definition reproducible_part :: "error + main_output \<Rightarrow> error + main_output" where
  "reproducible_part r =
     (case r of
        Inl e \<Rightarrow> Inl e
      | Inr out \<Rightarrow> Inr (out\<lparr>generated_files := map without_stamp (generated_files out)\<rparr>))"

definition headers_of :: "error + main_output \<Rightarrow> (string \<times> card) list list" where
  "headers_of r = (case r of Inl e \<Rightarrow> [] | Inr out \<Rightarrow> map primary_header (generated_files out))"

subsection \<open>A small generator to run the model on\<close>

text \<open>
  A deterministic generator whose state is a counter; it meets \<open>np_random_ok\<close> and
  lets the definitions above be evaluated on concrete inputs.
\<close>

definition unit_draw :: "nat \<Rightarrow> real" where
  "unit_draw m = real (7 * m mod 10) / 10"

definition counter_random :: "nat np_random" where
  "counter_random =
     \<lparr>rs_seed = (\<lambda>s. s),
      rs_poisson = (\<lambda>lam g. (1 + g mod 2, g + 1)),
      rs_normal = (\<lambda>loc scale n g.
         (map (\<lambda>j. loc + scale * (real ((g + j) mod 3) - 1)) [0..<n], g + n)),
      rs_uniform = (\<lambda>low high n g.
         (map (\<lambda>j. low + (high - low) * unit_draw (g + j)) [0..<n], g + n)),
      rs_exponential = (\<lambda>scale n g.
         (map (\<lambda>j. scale * real ((g + j) mod 8)) [0..<n], g + n)),
      rs_choice = (\<lambda>k n p g. (map (\<lambda>j. (g + j) mod k) [0..<n], g + n))\<rparr>"

section \<open>Auxiliary facts\<close>

subsection \<open>The small generator and the samplers\<close>

lemma unit_draw_range: "0 \<le> unit_draw m \<and> unit_draw m < 1"
proof -
  have "7 * m mod 10 < 10" by simp
  then have "real (7 * m mod 10) < 10" by linarith
  then show ?thesis by (simp add: unit_draw_def)
qed

lemma affine_in_range:
  fixes low high u :: real
  assumes "low < high" "0 \<le> u" "u < 1"
  shows "low \<le> low + (high - low) * u \<and> low + (high - low) * u < high"
proof -
  have "0 \<le> (high - low) * u" using assms by simp
  moreover have "(high - low) * u < (high - low) * 1"
    using assms by (intro mult_strict_left_mono) simp_all
  ultimately show ?thesis by simp
qed

lemma counter_random_ok: "np_random_ok counter_random"
  unfolding np_random_ok_def counter_random_def
  using unit_draw_range affine_in_range by auto

lemma poisson_lam_max_lower: "10 ^ 18 \<le> poisson_lam_max"
proof -
  have "sqrt (2 ^ 63 - 1) \<le> sqrt ((2::real) ^ 64)"
    by (rule real_sqrt_le_mono) simp
  also have "sqrt ((2::real) ^ 64) = 2 ^ 32"
    by (rule real_sqrt_unique) simp_all
  finally show ?thesis by (simp add: poisson_lam_max_def)
qed

lemma np_random_poisson_Inr:
  "0 \<le> lam \<Longrightarrow> lam \<le> 10 ^ 18 \<Longrightarrow> np_random_poisson R lam g = Inr (rs_poisson R lam g)"
  using poisson_lam_max_lower by (simp add: np_random_poisson_def)

lemma ok_normal: "np_random_ok R \<Longrightarrow> rs_normal R loc scale n g = (xs, g') \<Longrightarrow> length xs = n"
  by (metis fst_conv np_random_ok_def)

lemma ok_exponential: "np_random_ok R \<Longrightarrow> rs_exponential R scale n g = (xs, g') \<Longrightarrow> length xs = n"
  by (metis fst_conv np_random_ok_def)

lemma ok_uniform_length: "np_random_ok R \<Longrightarrow> rs_uniform R low high n g = (xs, g') \<Longrightarrow> length xs = n"
  by (metis fst_conv np_random_ok_def)

lemma ok_uniform_range:
  "np_random_ok R \<Longrightarrow> rs_uniform R low high n g = (xs, g') \<Longrightarrow> low < high \<Longrightarrow> x \<in> set xs
     \<Longrightarrow> low \<le> x \<and> x < high"
  unfolding np_random_ok_def by (metis fst_conv)

lemma ok_choice_length: "np_random_ok R \<Longrightarrow> rs_choice R k n p g = (cs, g') \<Longrightarrow> length cs = n"
  by (metis fst_conv np_random_ok_def)

lemma ok_choice_range:
  "np_random_ok R \<Longrightarrow> rs_choice R k n p g = (cs, g') \<Longrightarrow> 0 < k \<Longrightarrow> c \<in> set cs \<Longrightarrow> c < k"
  unfolding np_random_ok_def by (metis fst_conv)

lemma np_clip_range: "lo \<le> hi \<Longrightarrow> lo \<le> np_clip a lo hi \<and> np_clip a lo hi \<le> hi"
  by (auto simp: np_clip_def)

subsection \<open>Rows of an event list\<close>

lemma length_event_rows [simp]: "length (event_rows ev) = length (time ev)"
  by (simp add: event_rows_def)

lemma nth_event_rows: "i < length (time ev) \<Longrightarrow> event_rows ev ! i = event_row ev i"
  by (simp add: event_rows_def)

lemma wf_no_events [simp]: "wf_events no_events"
  by (simp add: wf_events_def no_events_def)

lemma event_rows_no_events [simp]: "event_rows no_events = []"
  by (simp add: event_rows_def no_events_def)

lemma wf_extend_all: "wf_events a \<Longrightarrow> wf_events b \<Longrightarrow> wf_events (extend_all a b)"
  by (simp add: wf_events_def extend_all_def)

lemma event_rows_extend_all:
  assumes "wf_events a" "wf_events b"
  shows "event_rows (extend_all a b) = event_rows a @ event_rows b"
proof (rule nth_equalityI)
  show "length (event_rows (extend_all a b)) = length (event_rows a @ event_rows b)"
    by (simp add: extend_all_def)
next
  fix i assume "i < length (event_rows (extend_all a b))"
  then have i: "i < length (time a) + length (time b)" by (simp add: extend_all_def)
  have "event_rows (extend_all a b) ! i = event_row (extend_all a b) i"
    using i by (simp add: nth_event_rows extend_all_def)
  also have "\<dots> = (event_rows a @ event_rows b) ! i"
    using i assms
    by (auto simp: nth_append nth_event_rows event_row_def extend_all_def wf_events_def)
  finally show "event_rows (extend_all a b) ! i = (event_rows a @ event_rows b) ! i" .
qed

lemma set_argsort: "set (argsort a) = {0..<length a}"
  by (simp add: argsort_def)

lemma mset_argsort: "mset (argsort a) = mset [0..<length a]"
  by (simp add: argsort_def)

lemma length_argsort [simp]: "length (argsort a) = length a"
  by (simp add: argsort_def)

lemma sorted_take_argsort: "sorted (take_order (argsort a) a)"
  unfolding take_order_def argsort_def by (rule sorted_sort_key)

lemma wf_sort_by_time: "wf_events (sort_by_time ev)"
  by (simp add: wf_events_def sort_by_time_def take_order_def Let_def)

lemma event_rows_sort_by_time:
  "event_rows (sort_by_time ev) = map (event_row ev) (argsort (time ev))"
proof (rule nth_equalityI)
  show "length (event_rows (sort_by_time ev)) = length (map (event_row ev) (argsort (time ev)))"
    by (simp add: sort_by_time_def take_order_def Let_def)
next
  fix i assume "i < length (event_rows (sort_by_time ev))"
  then have i: "i < length (time ev)" by (simp add: sort_by_time_def take_order_def Let_def)
  then show "event_rows (sort_by_time ev) ! i = map (event_row ev) (argsort (time ev)) ! i"
    by (simp add: nth_event_rows sort_by_time_def take_order_def Let_def event_row_def)
qed

lemma set_event_rows_sort_by_time: "set (event_rows (sort_by_time ev)) = set (event_rows ev)"
proof -
  have "set (event_rows (sort_by_time ev)) = event_row ev ` set (argsort (time ev))"
    unfolding event_rows_sort_by_time by simp
  also have "\<dots> = set (event_rows ev)"
    unfolding event_rows_def by (simp add: set_argsort)
  finally show ?thesis .
qed

lemma mset_event_rows_sort_by_time: "mset (event_rows (sort_by_time ev)) = mset (event_rows ev)"
proof -
  have "mset (event_rows (sort_by_time ev)) = image_mset (event_row ev) (mset (argsort (time ev)))"
    unfolding event_rows_sort_by_time by simp
  also have "\<dots> = image_mset (event_row ev) (mset [0..<length (time ev)])"
    by (simp only: mset_argsort)
  also have "\<dots> = mset (event_rows ev)"
    unfolding event_rows_def by (simp only: mset_map)
  finally show ?thesis .
qed

subsection \<open>What one block of events satisfies\<close>

lemma announced_events_Nil [simp]: "announced_events [] s = 0"
  by (simp add: announced_events_def)

lemma announced_events_append [simp]:
  "announced_events (xs @ ys) s = announced_events xs s + announced_events ys s"
  by (simp add: announced_events_def)

lemma count_list_replicate: "count_list (replicate k a) s = (if s = a then k else 0)"
  by (induction k) auto

lemma simulate_source_cases:
  assumes "simulate_source R rc dc i (a, d, f) g = Inr (new, lines, g')"
  obtains (none) g1 where "rs_poisson R (f * exposure_time) g = (0, g1)"
      "new = no_events" "lines = []"
    | (some) k g1 xs g2 ys g3 ts g4 es where
      "rs_poisson R (f * exposure_time) g = (k, g1)" "0 < k"
      "rs_normal R (sky_to_det a rc) 2 k g1 = (xs, g2)"
      "rs_normal R (sky_to_det d dc) 2 k g2 = (ys, g3)"
      "rs_uniform R 0 exposure_time k g3 = (ts, g4)"
      "rs_exponential R (3 / 2) k g4 = (es, g')"
      "new = \<lparr>det_x = xs, det_y = ys, time = ts,
              energy = map (\<lambda>e. np_clip (e + 1 / 2) (2 / 10) 10) es,
              ra = map (\<lambda>x. det_to_sky x rc) xs, dec = map (\<lambda>y. det_to_sky y dc) ys,
              source_id = replicate k (i + 1)\<rparr>"
      "lines = [PrintSource (i + 1) a d f k]"
  using assms
  by (auto simp: simulate_source_def np_random_poisson_def Let_def
      split: if_splits prod.splits sum.splits)

lemma simulate_source_props:
  assumes ok: "np_random_ok R"
    and run: "simulate_source R rc dc i (a, d, f) g = Inr (new, lines, g')"
    and i: "i < n"
  shows "wf_events new \<and> (\<forall>r \<in> set (event_rows new). row_ok rc dc n r) \<and>
         (\<forall>s. count_list (source_id new) s = announced_events lines s)"
using run
proof (cases rule: simulate_source_cases)
  case none
  then show ?thesis by (simp add: wf_events_def event_rows_def no_events_def)
next
  case (some k g1 xs g2 ys g3 ts g4 es)
  have lx: "length xs = k" by (rule ok_normal [OF ok some(3)])
  have ly: "length ys = k" by (rule ok_normal [OF ok some(4)])
  have lt: "length ts = k" by (rule ok_uniform_length [OF ok some(5)])
  have le: "length es = k" by (rule ok_exponential [OF ok some(6)])
  have tr: "\<And>t. t \<in> set ts \<Longrightarrow> 0 \<le> t \<and> t < 1000"
    using ok_uniform_range [OF ok some(5)] by (simp add: exposure_time_def)
  have "wf_events new"
    using some lx ly lt le by (simp add: wf_events_def)
  moreover have "\<forall>r \<in> set (event_rows new). row_ok rc dc n r"
  proof
    fix r assume "r \<in> set (event_rows new)"
    then obtain j where j: "j < k" and r: "r = event_row new j"
      using some lt by (auto simp: event_rows_def)
    have "ts ! j \<in> set ts" using j lt by simp
    then have "0 \<le> ts ! j \<and> ts ! j < 1000" by (rule tr)
    moreover have "2 / 10 \<le> np_clip (es ! j + 1 / 2) (2 / 10) (10::real) \<and>
        np_clip (es ! j + 1 / 2) (2 / 10) (10::real) \<le> 10"
      by (rule np_clip_range) simp
    ultimately show "row_ok rc dc n r"
      using j r some lx ly lt le i by (simp add: row_ok_def event_row_def)
  qed
  moreover have "\<forall>s. count_list (source_id new) s = announced_events lines s"
    using some by (simp add: count_list_replicate announced_events_def)
  ultimately show ?thesis by simp
qed

lemma simulate_background_cases:
  assumes "simulate_background R rc dc g = Inr (new, lines, g')"
  obtains (none) "new = no_events" "lines = []"
    | (some) k g1 xs g2 ys g3 ts g4 es where "0 < k"
      "rs_uniform R 0 384 k g1 = (xs, g2)"
      "rs_uniform R 0 384 k g2 = (ys, g3)"
      "rs_uniform R 0 exposure_time k g3 = (ts, g4)"
      "rs_uniform R (2 / 10) 10 k g4 = (es, g')"
      "new = \<lparr>det_x = xs, det_y = ys, time = ts, energy = es,
              ra = map (\<lambda>x. det_to_sky x rc) xs, dec = map (\<lambda>y. det_to_sky y dc) ys,
              source_id = replicate k 0\<rparr>"
      "lines = [PrintBackground k]"
  using assms
  by (auto simp: simulate_background_def np_random_poisson_def Let_def
      split: if_splits prod.splits sum.splits)

lemma simulate_background_props:
  assumes ok: "np_random_ok R"
    and run: "simulate_background R rc dc g = Inr (new, lines, g')"
  shows "wf_events new \<and> (\<forall>r \<in> set (event_rows new). row_ok rc dc n r) \<and>
         (\<forall>s. count_list (source_id new) s = announced_events lines s)"
using run
proof (cases rule: simulate_background_cases)
  case none
  then show ?thesis by (simp add: wf_events_def event_rows_def no_events_def)
next
  case (some k g1 xs g2 ys g3 ts g4 es)
  have lx: "length xs = k" by (rule ok_uniform_length [OF ok some(2)])
  have ly: "length ys = k" by (rule ok_uniform_length [OF ok some(3)])
  have lt: "length ts = k" by (rule ok_uniform_length [OF ok some(4)])
  have le: "length es = k" by (rule ok_uniform_length [OF ok some(5)])
  have tr: "\<And>t. t \<in> set ts \<Longrightarrow> 0 \<le> t \<and> t < 1000"
    using ok_uniform_range [OF ok some(4)] by (simp add: exposure_time_def)
  have xr: "\<And>x. x \<in> set xs \<Longrightarrow> 0 \<le> x \<and> x < 384"
    using ok_uniform_range [OF ok some(2)] by simp
  have yr: "\<And>y. y \<in> set ys \<Longrightarrow> 0 \<le> y \<and> y < 384"
    using ok_uniform_range [OF ok some(3)] by simp
  have er: "\<And>e. e \<in> set es \<Longrightarrow> 2 / 10 \<le> e \<and> e < 10"
    using ok_uniform_range [OF ok some(5)] by simp
  have "wf_events new"
    using some lx ly lt le by (simp add: wf_events_def)
  moreover have "\<forall>r \<in> set (event_rows new). row_ok rc dc n r"
  proof
    fix r assume "r \<in> set (event_rows new)"
    then obtain j where j: "j < k" and r: "r = event_row new j"
      using some lt by (auto simp: event_rows_def)
    have "0 \<le> ts ! j \<and> ts ! j < 1000" using j lt by (intro tr) simp
    moreover have "0 \<le> xs ! j \<and> xs ! j < 384" using j lx by (intro xr) simp
    moreover have "0 \<le> ys ! j \<and> ys ! j < 384" using j ly by (intro yr) simp
    moreover have "2 / 10 \<le> es ! j \<and> es ! j < 10" using j le by (intro er) simp
    ultimately show "row_ok rc dc n r"
      using j r some lx ly lt le by (simp add: row_ok_def event_row_def)
  qed
  moreover have "\<forall>s. count_list (source_id new) s = announced_events lines s"
    using some by (simp add: count_list_replicate announced_events_def)
  ultimately show ?thesis by simp
qed

lemma simulate_sources_props:
  assumes ok: "np_random_ok R"
  shows "simulate_sources R rc dc i srcs acc out g = Inr (acc', out', g') \<Longrightarrow>
     i + length srcs \<le> n \<Longrightarrow> wf_events acc \<Longrightarrow>
     (\<forall>r \<in> set (event_rows acc). row_ok rc dc n r) \<Longrightarrow>
     (\<forall>s. count_list (source_id acc) s = announced_events out s) \<Longrightarrow>
     wf_events acc' \<and> (\<forall>r \<in> set (event_rows acc'). row_ok rc dc n r) \<and>
     (\<forall>s. count_list (source_id acc') s = announced_events out' s)"
proof (induction srcs arbitrary: i acc out g)
  case Nil
  then show ?case by simp
next
  case (Cons src srcs)
  obtain a d f where src: "src = (a, d, f)" by (cases src) auto
  from Cons.prems(1) obtain new lines g1 where
    step: "simulate_source R rc dc i (a, d, f) g = Inr (new, lines, g1)" and
    rest: "simulate_sources R rc dc (i + 1) srcs (extend_all acc new) (out @ lines) g1 = Inr (acc', out', g')"
    by (auto simp: src split: sum.splits)
  have "i < n" using Cons.prems(2) by simp
  note p = simulate_source_props [OF ok step this]
  show ?case
  proof (rule Cons.IH [OF rest])
    show "i + 1 + length srcs \<le> n" using Cons.prems(2) by simp
    show "wf_events (extend_all acc new)" using p Cons.prems(3) by (simp add: wf_extend_all)
    show "\<forall>r\<in>set (event_rows (extend_all acc new)). row_ok rc dc n r"
      using p Cons.prems(3,4) by (auto simp: event_rows_extend_all)
    show "\<forall>s. count_list (source_id (extend_all acc new)) s = announced_events (out @ lines) s"
      using p Cons.prems(5) by (simp add: extend_all_def)
  qed
qed

subsection \<open>The whole event list\<close>

lemma simulate_sources_lines:
  "simulate_sources R rc dc i srcs acc out g = Inr (acc', out', g') \<Longrightarrow>
   PrintSource j a d f k \<in> set out' \<Longrightarrow>
   PrintSource j a d f k \<in> set out \<or>
   (i < j \<and> j \<le> i + length srcs \<and> srcs ! (j - 1 - i) = (a, d, f))"
proof (induction srcs arbitrary: i acc out g)
  case Nil
  then show ?case by simp
next
  case (Cons src srcs)
  obtain a0 d0 f0 where src: "src = (a0, d0, f0)" by (cases src) auto
  from Cons.prems(1) obtain new lines g1 where
    step: "simulate_source R rc dc i (a0, d0, f0) g = Inr (new, lines, g1)" and
    rest: "simulate_sources R rc dc (i + 1) srcs (extend_all acc new) (out @ lines) g1 = Inr (acc', out', g')"
    by (auto simp: src split: sum.splits)
  have lines: "lines = [] \<or> (\<exists>k0. lines = [PrintSource (i + 1) a0 d0 f0 k0])"
    using step by (cases rule: simulate_source_cases) auto
  from Cons.IH [OF rest Cons.prems(2)]
  consider "PrintSource j a d f k \<in> set out" | "PrintSource j a d f k \<in> set lines"
    | "i + 1 < j \<and> j \<le> i + 1 + length srcs \<and> srcs ! (j - 1 - (i + 1)) = (a, d, f)"
    by auto
  then show ?case
  proof cases
    case 1
    then show ?thesis by simp
  next
    case 2
    then have "j = i + 1 \<and> a = a0 \<and> d = d0 \<and> f = f0" using lines by auto
    then show ?thesis by (simp add: src)
  next
    case 3
    then have "j - 1 - i = Suc (j - 1 - (i + 1))" by linarith
    then show ?thesis using 3 by (simp add: src)
  qed
qed

lemma collect_events_cases:
  assumes "collect_events R srcs rc dc g = Inr (ev, out, g')"
  obtains acc out1 g1 bg lines where
    "simulate_sources R rc dc 0 srcs no_events [PrintSimulating (length srcs)] g = Inr (acc, out1, g1)"
    "simulate_background R rc dc g1 = Inr (bg, lines, g')"
    "ev = extend_all acc bg" "out = out1 @ lines"
  using assms by (auto simp: collect_events_def split: sum.splits)

lemma collect_events_props:
  assumes ok: "np_random_ok R"
    and run: "collect_events R srcs rc dc g = Inr (ev, out, g')"
  shows "wf_events ev \<and> (\<forall>r \<in> set (event_rows ev). row_ok rc dc (length srcs) r) \<and>
         (\<forall>s. count_list (source_id ev) s = announced_events out s)"
using run
proof (cases rule: collect_events_cases)
  case (1 acc out1 g1 bg lines)
  have a: "wf_events acc \<and> (\<forall>r \<in> set (event_rows acc). row_ok rc dc (length srcs) r) \<and>
         (\<forall>s. count_list (source_id acc) s = announced_events out1 s)"
    by (rule simulate_sources_props [OF ok 1(1)])
       (simp_all add: announced_events_def, simp add: no_events_def)
  note b = simulate_background_props [OF ok 1(2), of "length srcs"]
  have "wf_events (extend_all acc bg)"
    using a b by (simp add: wf_extend_all)
  moreover have "event_rows (extend_all acc bg) = event_rows acc @ event_rows bg"
    using a b by (simp add: event_rows_extend_all)
  moreover have "source_id (extend_all acc bg) = source_id acc @ source_id bg"
    by (simp add: extend_all_def)
  ultimately show ?thesis
    unfolding 1(3,4) using a b by auto
qed

lemma collect_events_lines:
  assumes "collect_events R srcs rc dc g = Inr (ev, out, g')"
    and "PrintSource j a d f k \<in> set out"
  shows "1 \<le> j \<and> j \<le> length srcs \<and> srcs ! (j - 1) = (a, d, f)"
using assms(1)
proof (cases rule: collect_events_cases)
  case (1 acc out1 g1 bg lines)
  have "lines = [] \<or> (\<exists>k0. lines = [PrintBackground k0])"
    using 1(2) by (cases rule: simulate_background_cases) auto
  then have "PrintSource j a d f k \<in> set out1" using assms(2) 1(4) by auto
  from simulate_sources_lines [OF 1(1) this] show ?thesis by auto
qed

lemma create_simple_events_cases:
  assumes "create_simple_events R srcs rc dc g = Inr (ev, out, g')"
  obtains raw where "collect_events R srcs rc dc g = Inr (raw, out, g')" "ev = sort_by_time raw"
  using assms by (auto simp: create_simple_events_def split: sum.splits)

lemma mset_take_order:
  assumes "mset p = mset [0..<length a]"
  shows "mset (take_order p a) = mset a"
proof -
  have "mset (take_order p a) = image_mset (\<lambda>i. a ! i) (mset p)"
    by (simp add: take_order_def)
  also have "\<dots> = mset (map (\<lambda>i. a ! i) [0..<length a])"
    by (simp only: assms mset_map)
  finally show ?thesis by (simp add: map_nth)
qed

lemma source_id_sort_by_time:
  "wf_events ev \<Longrightarrow> mset (source_id (sort_by_time ev)) = mset (source_id ev)"
  using mset_take_order [of "argsort (time ev)" "source_id ev"]
  by (simp add: sort_by_time_def Let_def wf_events_def mset_argsort)

lemma count_list_sort_by_time:
  "wf_events ev \<Longrightarrow> count_list (source_id (sort_by_time ev)) s = count_list (source_id ev) s"
  by (metis count_mset source_id_sort_by_time)

lemma create_simple_events_props:
  assumes ok: "np_random_ok R"
    and run: "create_simple_events R srcs rc dc g = Inr (ev, out, g')"
  shows "wf_events ev \<and> (\<forall>r \<in> set (event_rows ev). row_ok rc dc (length srcs) r) \<and>
         (\<forall>s. count_list (source_id ev) s = announced_events out s)"
using run
proof (cases rule: create_simple_events_cases)
  case (1 raw)
  note p = collect_events_props [OF ok 1(1)]
  show ?thesis
    using p unfolding 1(2)
    by (simp add: wf_sort_by_time set_event_rows_sort_by_time count_list_sort_by_time)
qed

lemma rowD:
  assumes "\<forall>r \<in> set (event_rows ev). P r" "i < length (time ev)"
  shows "P (event_row ev i)"
  using assms by (simp add: event_rows_def)


subsection \<open>One concrete run\<close>

lemmas run_defs =
  create_simple_events_def collect_events_def simulate_source_def simulate_background_def
  np_random_poisson_Inr exposure_time_def background_rate_def counter_random_def
  unit_draw_def sky_to_det_def det_to_sky_def pixel_scale_def np_clip_def extend_all_def
  no_events_def sort_by_time_def argsort_def take_order_def

lemma example_collect:
  "collect_events counter_random [(3005 / 100, 1003 / 100, 15 / 100)] 30 10 0 =
     Inr (\<lparr>det_x = [9672 / 41, 384 / 5, 1728 / 5],
            det_y = [9034 / 41, 1152 / 5, 576 / 5], time = [100, 0, 700],
            energy = [13 / 2, 103 / 25, 59 / 50],
            ra = [601 / 20, 18668 / 625, 56578 / 1875],
            dec = [180581 / 18000, 18832 / 1875, 18586 / 1875],
            source_id = [1, 0, 0]\<rparr>,
          [PrintSimulating 1, PrintSource 1 (3005 / 100) (1003 / 100) (15 / 100) 1,
           PrintBackground 2],
          14)"
  by (simp add: run_defs)

lemma example_run:
  "create_simple_events counter_random [(3005 / 100, 1003 / 100, 15 / 100)] 30 10 0 =
     Inr (\<lparr>det_x = [384 / 5, 9672 / 41, 1728 / 5],
            det_y = [1152 / 5, 9034 / 41, 576 / 5], time = [0, 100, 700],
            energy = [103 / 25, 13 / 2, 59 / 50],
            ra = [18668 / 625, 601 / 20, 56578 / 1875],
            dec = [18832 / 1875, 180581 / 18000, 18586 / 1875],
            source_id = [0, 1, 0]\<rparr>,
          [PrintSimulating 1, PrintSource 1 (3005 / 100) (1003 / 100) (15 / 100) 1,
           PrintBackground 2],
          14)"
  by (simp add: run_defs)

subsection \<open>The double precision model\<close>

text \<open>
  \<open>binade\<close> is the binary exponent, and \<open>float64\<close> moves its argument by at most
  half the spacing of the doubles around it.
\<close>

lemma bit_length_bounds: "0 < n \<Longrightarrow> 2 ^ (bit_length n - 1) \<le> n \<and> n < 2 ^ bit_length n"
proof (induction n rule: bit_length.induct)
  case (1 n)
  show ?case
  proof (cases "n div 2 = 0")
    case True
    then have "n = 1" using "1.prems" by (simp add: div_eq_0_iff) 
    then show ?thesis by (simp add: bit_length.simps [of "Suc 0"] bit_length.simps [of 0])
  next
    case False
    then have pos: "0 < n div 2" by simp
    have n: "n \<noteq> 0" using "1.prems" by simp
    from "1.IH" [OF n pos]
    have lo: "2 ^ (bit_length (n div 2) - 1) \<le> n div 2" and hi: "n div 2 < 2 ^ bit_length (n div 2)"
      by simp_all
    have b: "bit_length n = Suc (bit_length (n div 2))"
      using n by (subst bit_length.simps) simp
    have bp: "0 < bit_length (n div 2)"
      using pos by (subst bit_length.simps) simp
    then have "(2::nat) ^ bit_length (n div 2) = 2 * 2 ^ (bit_length (n div 2) - 1)"
      by (cases "bit_length (n div 2)") simp_all
    then have "2 ^ bit_length (n div 2) \<le> 2 * (n div 2)" using lo by simp
    also have "\<dots> \<le> n" by simp
    finally have l: "2 ^ (bit_length n - 1) \<le> n" by (simp add: b)
    have "n < 2 * (n div 2 + 1)" by presburger
    also have "\<dots> \<le> 2 * 2 ^ bit_length (n div 2)" using hi by simp
    finally have "n < 2 ^ bit_length n" by (simp add: b)
    with l show ?thesis by simp
  qed
qed

lemma binade_bracket:
  assumes "x \<noteq> 0"
  shows "pow2 (binade x) \<le> \<bar>x\<bar> \<and> \<bar>x\<bar> < pow2 (binade x + 1)"
proof (cases "1 \<le> \<bar>x\<bar>")
  case True
  define n where "n = nat \<lfloor>\<bar>x\<bar>\<rfloor>"
  have n: "0 < n" using True by (simp add: n_def)
  have e: "binade x = int (bit_length n) - 1" using True by (simp add: binade_def n_def)
  from bit_length_bounds [OF n] have lo: "2 ^ (bit_length n - 1) \<le> n" and hi: "n < 2 ^ bit_length n"
    by simp_all
  have bp: "0 < bit_length n" using n by (subst bit_length.simps) simp
  have a: "real n \<le> \<bar>x\<bar>" using True by (simp add: n_def)
  have b: "\<bar>x\<bar> < real n + 1" using True by (simp add: n_def)
  have "real (2 ^ (bit_length n - 1)) \<le> real n" using lo by (rule of_nat_mono)
  then have lo': "2 ^ (bit_length n - 1) \<le> real n" by simp
  have "real (Suc n) \<le> real (2 ^ bit_length n)" using hi by (intro of_nat_mono) simp
  then have hi': "real n + 1 \<le> 2 ^ bit_length n" by simp
  have p1: "pow2 (binade x) = 2 ^ (bit_length n - 1)"
    using bp by (simp add: e pow2_def nat_diff_distrib')
  have p2: "pow2 (binade x + 1) = 2 ^ bit_length n"
    using bp by (simp add: e pow2_def)
  show ?thesis unfolding p1 p2 using a b lo' hi' by linarith
next
  case False
  define y where "y = 1 / \<bar>x\<bar>"
  have y: "1 < y" using False assms by (simp add: y_def)
  define m where "m = nat \<lceil>y\<rceil> - 1"
  have cy: "2 \<le> \<lceil>y\<rceil>" using y by linarith
  then have m: "0 < m" by (simp add: m_def)
  have "0 < nat \<lceil>y\<rceil>" using cy by simp
  then obtain k where k: "nat \<lceil>y\<rceil> = Suc k" by (cases "nat \<lceil>y\<rceil>") auto
  have "int (nat \<lceil>y\<rceil>) = \<lceil>y\<rceil>" using cy by simp
  then have cm: "\<lceil>y\<rceil> = int m + 1" unfolding m_def k by simp
  have e: "binade x = - int (bit_length m)" using False by (simp add: binade_def m_def y_def)
  from bit_length_bounds [OF m] have lo: "2 ^ (bit_length m - 1) \<le> m" and hi: "m < 2 ^ bit_length m"
    by simp_all
  have bp: "0 < bit_length m" using m by (subst bit_length.simps) simp
  have "real (Suc m) \<le> real (2 ^ bit_length m)" using hi by (intro of_nat_mono) simp
  then have hi': "real m + 1 \<le> 2 ^ bit_length m" by simp
  have "real (2 ^ (bit_length m - 1)) \<le> real m" using lo by (rule of_nat_mono)
  then have lo': "2 ^ (bit_length m - 1) \<le> real m" by simp
  have c1: "y \<le> of_int \<lceil>y\<rceil>" by simp
  have c2: "of_int \<lceil>y\<rceil> = real m + 1" by (simp add: cm)
  have c3: "of_int \<lceil>y\<rceil> - 1 < y" by linarith
  have yhi: "y \<le> 2 ^ bit_length m" using c1 c2 hi' by linarith
  have ylo: "2 ^ (bit_length m - 1) < y" using c2 c3 lo' by linarith
  have xpos: "0 < \<bar>x\<bar>" using assms by simp
  have "1 / 2 ^ bit_length m \<le> \<bar>x\<bar>"
    using yhi xpos by (simp add: y_def field_simps)
  moreover have "\<bar>x\<bar> < 1 / 2 ^ (bit_length m - 1)"
    using ylo xpos by (simp add: y_def field_simps)
  moreover have "pow2 (binade x) = 1 / 2 ^ bit_length m"
    using bp by (simp add: e pow2_def)
  moreover have "pow2 (binade x + 1) = 1 / 2 ^ (bit_length m - 1)"
  proof (cases "bit_length m = 1")
    case True
    then show ?thesis by (simp add: e pow2_def)
  next
    case False
    then have "1 < bit_length m" using bp by simp
    then have "nat (int (bit_length m) - 1) = bit_length m - 1" by simp
    then show ?thesis using \<open>1 < bit_length m\<close> by (simp add: e pow2_def)
  qed
  ultimately show ?thesis by simp
qed

lemma round_half_even_error: "\<bar>of_int (round_half_even x) - x\<bar> \<le> 1 / 2"
  by (auto simp: round_half_even_def Let_def)

lemma pow2_pos: "0 < pow2 k"
  by (simp add: pow2_def)

lemma float64_error:
  "\<bar>float64 x - x\<bar> \<le> pow2 (max (binade x) (- 1022) - 52) / 2"
proof (cases "x = 0")
  case True
  then show ?thesis using pow2_pos [of "max (binade 0) (- 1022) - 52"] by (simp add: float64_def)
next
  case False
  define q where "q = pow2 (max (binade x) (- 1022) - 52)"
  have q: "0 < q" by (simp add: q_def pow2_pos)
  have "float64 x - x = (of_int (round_half_even (x / q)) - x / q) * q"
    using False q by (simp add: float64_def q_def [symmetric] Let_def field_simps)
  then have "\<bar>float64 x - x\<bar> = \<bar>of_int (round_half_even (x / q)) - x / q\<bar> * q"
    using q by (simp add: abs_mult)
  also have "\<dots> \<le> 1 / 2 * q"
    using round_half_even_error [of "x / q"] q by (intro mult_right_mono) simp_all
  finally show ?thesis by (simp add: q_def)
qed

subsection \<open>The derived columns and one observation\<close>

lemma add_realistic_columns_cases:
  assumes "add_realistic_columns R ev g = (fe, g')"
  obtains grades g1 picks where
    "rs_choice R 5 (length (time ev)) [7 / 10, 2 / 10, 5 / 100, 3 / 100, 2 / 100] g = (grades, g1)"
    "rs_choice R 2 (length (time ev)) [95 / 100, 5 / 100] g1 = (picks, g')"
    "fe = \<lparr>det_x = det_x ev, det_y = det_y ev, time = time ev, energy = energy ev,
            ra = ra ev, dec = dec ev, source_id = source_id ev,
            pi_chan = map (\<lambda>e. np_clip (astype_int
                          (np_round (float64 (float64 (e - energy_offset) / energy_gain)))) 0 4095)
                        (energy ev),
            grade = grades, status = map (\<lambda>j. [0, 1] ! j) picks,
            frame = map (\<lambda>t. astype_int (t / (26 / 10))) (time ev)\<rparr>"
  using assms
  by (auto simp: add_realistic_columns_def Let_def split: prod.splits)

lemma astype_int_of_int [simp]: "astype_int (of_int k) = k"
  by (simp add: astype_int_def)

lemma np_clip_clamp: "lo \<le> hi \<Longrightarrow> np_clip v lo hi = clamp v lo hi"
  by (auto simp: np_clip_def clamp_def)

lemma pi_entry:
  "np_clip (astype_int (np_round (float64 (float64 (e - energy_offset) / energy_gain)))) 0 4095 =
     spec_channel e"
  by (simp add: np_round_def spec_channel_def energy_offset_def energy_gain_def np_clip_clamp)

lemma bit_length_0: "bit_length 0 = 0"
  by (subst bit_length.simps) simp

lemma bit_length_pos: "0 < n \<Longrightarrow> bit_length n = Suc (bit_length (n div 2))"
  by (subst bit_length.simps) simp

lemmas float_defs =
  float64_def binade_def pow2_def round_half_even_def bit_length_0 bit_length_pos

lemma float64_literals:
  "float64 (2 / 10) = 3602879701896397 / 2 ^ 54"
  "float64 (5 / 1000) = 5764607523034235 / 2 ^ 60"
  by (simp_all add: float_defs)

lemma spec_channel_values:
  "spec_channel (39 / 16) = 447"
  "spec_channel (float64 (81 / 400)) = 1"
  "spec_channel (float64 (83 / 400)) = 1"
  "spec_channel 25 = 4095"
  "spec_channel (float64 (1 / 10)) = 0"
  "spec_channel (float64 (6173 / 5000)) = 207"
  "spec_channel 10 = 1960"
  "spec_channel (1 / 5) = 0"
  "spec_channel (19 / 2) = 1860"
  unfolding spec_channel_def float64_literals
  by (simp_all add: float_defs clamp_def)

lemma pi_entry_unfolded:
  "min 4095 (max (astype_int (np_round (float64 (float64 (e - energy_offset) / energy_gain)))) 0) =
     spec_channel e"
  using pi_entry [of e] by (simp add: np_clip_def)

lemma astype_int_nonneg: "0 \<le> x \<Longrightarrow> astype_int x = \<lfloor>x\<rfloor>"
  by (simp add: astype_int_def)



lemma generate_observation_cases:
  assumes "generate_observation R stamp obs g = Inr (file, out, g')"
  obtains ev out0 g1 fe where
    "create_simple_events R (sources obs) (ra_center obs) (dec_center obs) (init R g) =
       Inr (ev, out0, g1)"
    "add_realistic_columns R ev g1 = (fe, g')"
    "file = write_fits_file (obs_id obs) fe (''data/simulated/raw/'' @ obs_id obs @ ''_events.fits'')
              (ra_center obs) (dec_center obs) stamp"
    "out = out0 @ [PrintEventSummary (length (time fe))
                     (length (filter (\<lambda>s. s > 0) (source_id fe)))
                     (length (filter (\<lambda>s. s = 0) (source_id fe))),
                   PrintEnergyRange (Min (set (energy fe))) (Max (set (energy fe)))]"
    "energy fe \<noteq> []"
  using assms
  by (auto simp: generate_observation_def Let_def split: sum.splits prod.splits if_splits)

lemma table_write_fits_file [simp]: "table (write_fits_file oid fe fn rc dc stamp) = fe"
  by (simp add: write_fits_file_def)

lemma trunc_frame:
  assumes "0 \<le> t" "t < 1000"
  shows "0 \<le> astype_int (t / (26 / 10)) \<and> astype_int (t / (26 / 10)) \<le> \<lfloor>exposure_time / (26 / 10)\<rfloor>"
proof -
  have "t / (26 / 10) \<le> exposure_time / (26 / 10)"
    using assms by (simp add: exposure_time_def)
  then have "\<lfloor>t / (26 / 10)\<rfloor> \<le> \<lfloor>exposure_time / (26 / 10)\<rfloor>" by (rule floor_mono)
  moreover have "0 \<le> t / (26 / 10)" using assms by simp
  ultimately show ?thesis by (simp add: astype_int_def)
qed

lemma frame_bound: "\<lfloor>exposure_time / (26 / 10)\<rfloor> = 384"
  by (simp add: exposure_time_def)


lemma count_zero_filter: "length (filter (\<lambda>s. s = 0) xs) = count_list xs (0::nat)"
  by (induction xs) auto

lemma count_pos_filter: "length (filter (\<lambda>s. s > 0) xs) + count_list xs (0::nat) = length xs"
  by (induction xs) auto

lemma length_as_counts:
  assumes "\<forall>s \<in> set xs. s \<le> (n::nat)"
  shows "length xs = sum_list (map (count_list xs) [1..<Suc n]) + count_list xs 0"
proof -
  have "set xs \<subseteq> {0..n}" using assms by auto
  then have "sum (count_list xs) {0..n} = length xs" by (rule sum_count_set) simp
  moreover have "sum (count_list xs) {0..n} = count_list xs 0 + sum (count_list xs) {Suc 0..n}"
    by (rule sum.atLeast_Suc_atMost) simp
  moreover have "sum_list (map (count_list xs) [1..<Suc n]) = sum (count_list xs) {Suc 0..n}"
    by (simp only: interv_sum_list_conv_sum_set_nat set_upt atLeastLessThanSuc_atLeastAtMost
        One_nat_def)
  ultimately show ?thesis by simp
qed


lemma example_observation:
  "generate_observation counter_random ''2025-07-01T12:00:00''
     \<lparr>obs_id = ''TEST001'', ra_center = 30, dec_center = 10,
      sources = [(3005 / 100, 1003 / 100, 150 / 1000), (2995 / 100, 1008 / 100, 80 / 1000)]\<rparr> 0 =
   Inr (write_fits_file ''TEST001''
          \<lparr>det_x = [6072 / 41, 1728 / 5, 5990 / 41, 9672 / 41],
           det_y = [10670 / 41, 1152 / 5, 10834 / 41, 9034 / 41],
           time = [100, 300, 400, 500], energy = [10, 2 / 10, 19 / 2, 19 / 2],
           ra = [599 / 20, 56578 / 1875, 539059 / 18000, 601 / 20],
           dec = [181399 / 18000, 18832 / 1875, 181481 / 18000, 180581 / 18000],
           source_id = [2, 0, 2, 1], pi_chan = [1960, 0, 1860, 1860],
           grade = [1, 2, 3, 4], status = [1, 0, 1, 0], frame = [38, 115, 153, 192]\<rparr>
          ''data/simulated/raw/TEST001_events.fits'' 30 10 ''2025-07-01T12:00:00'',
        [PrintSimulating 2,
         PrintSource 1 (3005 / 100) (1003 / 100) (150 / 1000) 1,
         PrintSource 2 (2995 / 100) (1008 / 100) (80 / 1000) 2,
         PrintBackground 1, PrintEventSummary 4 3 1, PrintEnergyRange (2 / 10) 10],
        69)"
  by (simp add: generate_observation_def init_def run_defs add_realistic_columns_def
      pi_entry_unfolded spec_channel_values astype_int_nonneg write_fits_file_def)

subsection \<open>The Poisson law, the imports\<close>


lemma try_imports_None: "try_imports importer ps = None \<longleftrightarrow> (\<forall>q \<in> set ps. importer q = None)"
  by (induction ps) (auto split: option.splits)

lemma try_imports_Some:
  "try_imports importer ps = Some m \<Longrightarrow> \<exists>q \<in> set ps. importer q = Some m"
  by (induction ps) (auto split: option.splits)

lemma guarded_or_numpy: "p = Numpy \<or> p \<in> set guarded_imports"
  by (cases p) (simp_all add: guarded_imports_def)


subsection \<open>The catalog\<close>

lemma digits_small: "n < 10 \<Longrightarrow> digits n = [''0123456789'' ! n]"
  by (subst digits.simps) simp

lemma digits_large: "10 \<le> n \<Longrightarrow> digits n = digits (n div 10) @ [''0123456789'' ! (n mod 10)]"
  by (subst digits.simps) simp

lemma pad_numeral: "replicate (numeral k) (c::char) = c # replicate (pred_numeral k) c"
  by (simp add: numeral_eq_Suc)

lemmas format_defs =
  format_d_def format_f_def rjust_def zfill_def round_half_even_def
  digits_small digits_large pad_numeral

lemma format_f_configured:
  "format_f 8 4 (3005 / 100) = '' 30.0500''"
  "format_f 8 4 (1003 / 100) = '' 10.0300''"
  "format_f 8 4 (150 / 1000) = ''  0.1500''"
  "format_f 8 4 (2995 / 100) = '' 29.9500''"
  "format_f 8 4 (1008 / 100) = '' 10.0800''"
  "format_f 8 4 (80 / 1000) = ''  0.0800''"
  "format_f 8 4 (3008 / 100) = '' 30.0800''"
  "format_f 8 4 (992 / 100) = ''  9.9200''"
  "format_f 8 4 (40 / 1000) = ''  0.0400''"
  "format_f 8 4 (2992 / 100) = '' 29.9200''"
  "format_f 8 4 (995 / 100) = ''  9.9500''"
  "format_f 8 4 (25 / 1000) = ''  0.0250''"
  "format_f 8 4 (3002 / 100) = '' 30.0200''"
  "format_f 8 4 (1015 / 100) = '' 10.1500''"
  "format_f 8 4 (200 / 1000) = ''  0.2000''"
  "format_f 8 4 (4503 / 100) = '' 45.0300''"
  "format_f 8 4 (- (497 / 100)) = '' -4.9700''"
  "format_f 8 4 (120 / 1000) = ''  0.1200''"
  "format_f 8 4 (4498 / 100) = '' 44.9800''"
  "format_f 8 4 (- (505 / 100)) = '' -5.0500''"
  "format_f 8 4 (60 / 1000) = ''  0.0600''"
  "format_f 8 4 (4512 / 100) = '' 45.1200''"
  "format_f 8 4 (- (488 / 100)) = '' -4.8800''"
  "format_f 8 4 (180 / 1000) = ''  0.1800''"
  by (simp_all add: format_defs)

lemma format_d_configured:
  "format_d 2 (0 + 1) = '' 1''"
  "format_d 2 (Suc 0 + 1) = '' 2''"
  "format_d 2 (Suc (Suc 0) + 1) = '' 3''"
  "format_d 2 (Suc (Suc (Suc 0)) + 1) = '' 4''"
  "format_d 2 (Suc (Suc (Suc (Suc 0))) + 1) = '' 5''"
  by (simp_all add: format_defs)

lemma catalog_row_configured:
  "catalog_row ''TEST001'' 0 (3005 / 100, 1003 / 100, 150 / 1000) =
     ''TEST001   1   30.0500   10.0300    0.1500'' @ [CHR 0x0A]"
  "catalog_row ''TEST001'' (Suc 0) (2995 / 100, 1008 / 100, 80 / 1000) =
     ''TEST001   2   29.9500   10.0800    0.0800'' @ [CHR 0x0A]"
  "catalog_row ''TEST001'' (Suc (Suc 0)) (3008 / 100, 992 / 100, 40 / 1000) =
     ''TEST001   3   30.0800    9.9200    0.0400'' @ [CHR 0x0A]"
  "catalog_row ''TEST001'' (Suc (Suc (Suc 0))) (2992 / 100, 995 / 100, 25 / 1000) =
     ''TEST001   4   29.9200    9.9500    0.0250'' @ [CHR 0x0A]"
  "catalog_row ''TEST001'' (Suc (Suc (Suc (Suc 0)))) (3002 / 100, 1015 / 100, 200 / 1000) =
     ''TEST001   5   30.0200   10.1500    0.2000'' @ [CHR 0x0A]"
  "catalog_row ''TEST002'' 0 (4503 / 100, - (497 / 100), 120 / 1000) =
     ''TEST002   1   45.0300   -4.9700    0.1200'' @ [CHR 0x0A]"
  "catalog_row ''TEST002'' (Suc 0) (4498 / 100, - (505 / 100), 60 / 1000) =
     ''TEST002   2   44.9800   -5.0500    0.0600'' @ [CHR 0x0A]"
  "catalog_row ''TEST002'' (Suc (Suc 0)) (4512 / 100, - (488 / 100), 180 / 1000) =
     ''TEST002   3   45.1200   -4.8800    0.1800'' @ [CHR 0x0A]"
  unfolding catalog_row_def prod.case format_f_configured format_d_configured by simp_all

lemma catalog_rows_configured:
  "catalog_rows create_test_observations =
     [''TEST001   1   30.0500   10.0300    0.1500'' @ [CHR 0x0A],
      ''TEST001   2   29.9500   10.0800    0.0800'' @ [CHR 0x0A],
      ''TEST001   3   30.0800    9.9200    0.0400'' @ [CHR 0x0A],
      ''TEST001   4   29.9200    9.9500    0.0250'' @ [CHR 0x0A],
      ''TEST001   5   30.0200   10.1500    0.2000'' @ [CHR 0x0A],
      ''TEST002   1   45.0300   -4.9700    0.1200'' @ [CHR 0x0A],
      ''TEST002   2   44.9800   -5.0500    0.0600'' @ [CHR 0x0A],
      ''TEST002   3   45.1200   -4.8800    0.1800'' @ [CHR 0x0A]]"
  by (simp only: catalog_rows_def create_test_observations_def obs_config.simps list.map
      enumerate_simps prod.case concat.simps append.simps catalog_row_configured)

lemmas read_defs = read_catalog_row_def read_decimal_def read_nat_def

lemma read_back_configured:
  "map read_catalog_row (catalog_rows create_test_observations) =
     map Some (configured_rows create_test_observations)"
  unfolding catalog_rows_configured
  by (simp add: read_defs configured_rows_def create_test_observations_def)

lemma length_catalog_rows:
  "length (catalog_rows observations) = sum_list (map (\<lambda>obs. length (sources obs)) observations)"
  by (induction observations) (simp_all add: catalog_rows_def)

lemma main_catalog:
  "main R now g = Inr out \<Longrightarrow> catalog out = write_catalog create_test_observations"
  by (auto simp: main_def Let_def split: sum.splits)

subsection \<open>The whole program\<close>

lemma main_runs: "\<exists>out. main counter_random now g = Inr out"
  by (simp add: main_def create_test_observations_def generate_observation_def init_def run_defs
      add_realistic_columns_def)

lemma write_catalog_configured:
  "write_catalog create_test_observations =
     [''# MinieSASS Test Source Catalog'' @ [CHR 0x0A],
      ''# Format: OBS_ID  SOURCE_ID  RA_DEG  DEC_DEG  FLUX_CTS_PER_SEC'' @ [CHR 0x0A],
      ''TEST001   1   30.0500   10.0300    0.1500'' @ [CHR 0x0A],
      ''TEST001   2   29.9500   10.0800    0.0800'' @ [CHR 0x0A],
      ''TEST001   3   30.0800    9.9200    0.0400'' @ [CHR 0x0A],
      ''TEST001   4   29.9200    9.9500    0.0250'' @ [CHR 0x0A],
      ''TEST001   5   30.0200   10.1500    0.2000'' @ [CHR 0x0A],
      ''TEST002   1   45.0300   -4.9700    0.1200'' @ [CHR 0x0A],
      ''TEST002   2   44.9800   -5.0500    0.0600'' @ [CHR 0x0A],
      ''TEST002   3   45.1200   -4.8800    0.1800'' @ [CHR 0x0A]]"
  unfolding write_catalog_def catalog_rows_configured by simp

lemma drop_write_catalog: "drop 2 (write_catalog observations) = catalog_rows observations"
  by (simp add: write_catalog_def)

lemma generate_observation_stamp_free:
  "map_sum id (\<lambda>(f, out, g1). (without_stamp f, out, g1)) (generate_observation R s obs g) =
   map_sum id (\<lambda>(f, out, g1). (without_stamp f, out, g1)) (generate_observation R s' obs g')"
  by (simp add: generate_observation_def init_def Let_def without_stamp_def write_fits_file_def
      split: sum.splits prod.splits)

lemma generate_observations_stamp_free:
  "map without_stamp gen = map without_stamp gen' \<Longrightarrow>
   map_sum id (\<lambda>(fs, out, g1). (map without_stamp fs, out))
     (generate_observations R now k obss gen out0 g) =
   map_sum id (\<lambda>(fs, out, g1). (map without_stamp fs, out))
     (generate_observations R now' k' obss gen' out0 g')"
proof (induction obss arbitrary: k k' gen gen' out0 g g')
  case Nil
  then show ?case by simp
next
  case (Cons obs obss)
  note s = generate_observation_stamp_free [of R "now k" obs g "now' k'" g']
  show ?case
  proof (cases "generate_observation R (now k) obs g")
    case (Inl e)
    then have "generate_observation R (now' k') obs g' = Inl e"
      using s by (cases "generate_observation R (now' k') obs g'") auto
    then show ?thesis using Inl by simp
  next
    case (Inr r)
    obtain f lines g1 where r: "r = (f, lines, g1)" by (cases r) auto
    from Inr r s obtain f' where
      r': "generate_observation R (now' k') obs g' = Inr (f', lines, g1)" and
      ff: "without_stamp f = without_stamp f'"
      by (cases "generate_observation R (now' k') obs g'") auto
    have "map without_stamp (gen @ [f]) = map without_stamp (gen' @ [f'])"
      using Cons.prems ff by simp
    from Cons.IH [OF this] show ?thesis
      using Inr r r' by simp
  qed
qed

lemma headers_of_main:
  assumes "main R now g = Inr out"
  shows "\<exists>h rest. headers_of (main R now g) = h # rest \<and>
           map_of h ''DATE-OBS'' = Some (CardStr (now 0))"
proof -
  from assms obtain fs lines g1 where
    a: "generate_observations R now 0 create_test_observations [] [] g = Inr (fs, lines, g1)"
    and o: "generated_files out = fs"
    by (auto simp: main_def Let_def split: sum.splits)
  have gen: "generate_observations R now k obss gen out0 g0 = Inr (fs', lines', g1') \<Longrightarrow>
      \<exists>more. fs' = gen @ more" for k obss gen out0 g0 fs' lines' g1'
  proof (induction obss arbitrary: k gen out0 g0)
    case Nil
    then show ?case by simp
  next
    case (Cons obs obss)
    from Cons.prems obtain f0 l0 g00 where
      "generate_observations R now (k + 1) obss (gen @ [f0]) (out0 @ l0) g00 = Inr (fs', lines', g1')"
      by (auto split: sum.splits)
    from Cons.IH [OF this] show ?case by auto
  qed
  from a obtain f l2 g2 where
    f: "generate_observation R (now 0) (hd create_test_observations) g = Inr (f, l2, g2)" and
    r: "generate_observations R now 1 (tl create_test_observations) [f] l2 g2 = Inr (fs, lines, g1)"
    by (auto simp: create_test_observations_def split: sum.splits)
  from gen [OF r] obtain more where fs: "fs = f # more" by auto
  from f have "map_of (primary_header f) ''DATE-OBS'' = Some (CardStr (now 0))"
    by (cases rule: generate_observation_cases) (simp add: write_fits_file_def)
  then show ?thesis using assms o fs by (simp add: headers_of_def)
qed

section \<open>Properties\<close>

text \<open>
  C8: the sky-to-detector map followed by the detector-to-sky map returns the sky
  coordinate it started from, and the other way round, for every coordinate and
  every field centre.
\<close>

theorem transform_round_trip:
  "det_to_sky (sky_to_det sky center) center = sky \<and>
   sky_to_det (det_to_sky det center) center = det"
  by (simp add: det_to_sky_def sky_to_det_def pixel_scale_def field_simps)

text \<open>
  C2: the event list that \<open>create_simple_events\<close> returns has a non-decreasing time
  column, and there is one permutation \<open>p\<close> of the indices of the unsorted list
  such that each of the seven columns is the unsorted column read in the order \<open>p\<close>.
\<close>

theorem events_sorted_by_time:
  assumes "np_random_ok R"
    and "create_simple_events R srcs rc dc g = Inr (ev, out, g')"
  shows "sorted (time ev) \<and>
         (\<exists>raw p. collect_events R srcs rc dc g = Inr (raw, out, g') \<and> wf_events raw \<and>
            mset p = mset [0..<length (time raw)] \<and>
            time ev = map (\<lambda>i. time raw ! i) p \<and>
            det_x ev = map (\<lambda>i. det_x raw ! i) p \<and>
            det_y ev = map (\<lambda>i. det_y raw ! i) p \<and>
            energy ev = map (\<lambda>i. energy raw ! i) p \<and>
            ra ev = map (\<lambda>i. ra raw ! i) p \<and>
            dec ev = map (\<lambda>i. dec raw ! i) p \<and>
            source_id ev = map (\<lambda>i. source_id raw ! i) p)"
using assms(2)
proof (cases rule: create_simple_events_cases)
  case (1 raw)
  have "sorted (time ev)"
    unfolding 1(2) using sorted_take_argsort [of "time raw"] by (simp add: sort_by_time_def Let_def)
  moreover have "wf_events raw" using collect_events_props [OF assms(1) 1(1)] by simp
  moreover have "mset (argsort (time raw)) = mset [0..<length (time raw)]" by (rule mset_argsort)
  ultimately show ?thesis
    using 1 by (intro conjI exI [of _ raw] exI [of _ "argsort (time raw)"])
      (simp_all add: sort_by_time_def Let_def take_order_def)
qed

theorem events_sorted_by_time_witness:
  "\<exists>ev out g'.
     create_simple_events counter_random [(3005 / 100, 1003 / 100, 15 / 100)] 30 10 0 =
       Inr (ev, out, g') \<and>
     time ev = [0, 100, 700] \<and> source_id ev = [0, 1, 0] \<and> sorted (time ev) \<and>
     (\<exists>raw p. collect_events counter_random [(3005 / 100, 1003 / 100, 15 / 100)] 30 10 0 =
         Inr (raw, out, g') \<and>
       time raw = [100, 0, 700] \<and> source_id raw = [1, 0, 0] \<and>
       mset p = mset [0..<length (time raw)] \<and>
       time ev = map (\<lambda>i. time raw ! i) p \<and>
       source_id ev = map (\<lambda>i. source_id raw ! i) p)"
  using events_sorted_by_time [OF counter_random_ok example_run]
  unfolding example_run example_collect
  by simp (elim conjE exE, rule exI, intro conjI, assumption+)

text \<open>
  C3: in the event list that \<open>create_simple_events\<close> returns, whatever the samplers
  drew, every energy lies in [0.2, 10.0], and every row whose source id is 0 has both
  detector coordinates in [0, 384).
\<close>

theorem energy_and_background_position_ranges:
  assumes "np_random_ok R"
    and "create_simple_events R srcs rc dc g = Inr (ev, out, g')"
  shows "length (energy ev) = length (time ev) \<and> length (source_id ev) = length (time ev) \<and>
         length (det_x ev) = length (time ev) \<and> length (det_y ev) = length (time ev) \<and>
         (\<forall>i < length (time ev).
            2 / 10 \<le> energy ev ! i \<and> energy ev ! i \<le> 10 \<and>
            (source_id ev ! i = 0 \<longrightarrow>
               0 \<le> det_x ev ! i \<and> det_x ev ! i < 384 \<and> 0 \<le> det_y ev ! i \<and> det_y ev ! i < 384))"
proof -
  note p = create_simple_events_props [OF assms]
  have "\<And>i. i < length (time ev) \<Longrightarrow> row_ok rc dc (length srcs) (event_row ev i)"
    using p rowD by blast
  then show ?thesis
    using p by (auto simp: wf_events_def row_ok_def event_row_def split: if_splits)
qed

theorem energy_and_background_position_ranges_witness:
  "\<exists>ev out g'.
     create_simple_events counter_random [(3005 / 100, 1003 / 100, 15 / 100)] 30 10 0 =
       Inr (ev, out, g') \<and>
     source_id ev = [0, 1, 0] \<and> energy ev = [103 / 25, 13 / 2, 59 / 50] \<and>
     det_x ev = [384 / 5, 9672 / 41, 1728 / 5] \<and> det_y ev = [1152 / 5, 9034 / 41, 576 / 5] \<and>
     2 / 10 \<le> energy ev ! 1 \<and> energy ev ! 1 \<le> 10 \<and>
     0 \<le> det_x ev ! 2 \<and> det_x ev ! 2 < 384 \<and> 0 \<le> det_y ev ! 2 \<and> det_y ev ! 2 < 384"
  using energy_and_background_position_ranges [OF counter_random_ok example_run]
  unfolding example_run by simp



text \<open>
  C10: in the file of every generated observation the header declares TSTART = 0 and
  TSTOP = exposure_time, every arrival time lies in [0, exposure_time), every frame
  index lies in [0, floor(exposure_time / 2.6)], every grade is one of 0..4 and every
  status is 0 or 1.
\<close>

theorem times_frames_grades_status_in_range:
  assumes "np_random_ok R"
    and "generate_observation R stamp obs g = Inr (file, out, g')"
  shows "map_of (primary_header file) ''TSTART'' = Some (CardReal 0) \<and>
         map_of (primary_header file) ''TSTOP'' = Some (CardReal exposure_time) \<and>
         length (frame (table file)) = length (time (table file)) \<and>
         length (grade (table file)) = length (time (table file)) \<and>
         length (status (table file)) = length (time (table file)) \<and>
         (\<forall>i < length (time (table file)).
            0 \<le> time (table file) ! i \<and> time (table file) ! i < exposure_time \<and>
            0 \<le> frame (table file) ! i \<and>
            frame (table file) ! i \<le> \<lfloor>exposure_time / (26 / 10)\<rfloor> \<and>
            grade (table file) ! i \<in> {0, 1, 2, 3, 4} \<and>
            status (table file) ! i \<in> {0, 1})"
using assms(2)
proof (cases rule: generate_observation_cases)
  case (1 ev out0 g1 fe)
  note p = create_simple_events_props [OF assms(1) 1(1)]
  from 1(2) show ?thesis
  proof (cases rule: add_realistic_columns_cases)
    case (1 grades g2 picks)
    note c = this
    have lg: "length grades = length (time ev)" by (rule ok_choice_length [OF assms(1) c(1)])
    have lp: "length picks = length (time ev)" by (rule ok_choice_length [OF assms(1) c(2)])
    have rows: "\<forall>i < length (time ev).
        0 \<le> time fe ! i \<and> time fe ! i < exposure_time \<and> 0 \<le> frame fe ! i \<and>
        frame fe ! i \<le> \<lfloor>exposure_time / (26 / 10)\<rfloor> \<and> grade fe ! i \<in> {0, 1, 2, 3, 4} \<and>
        status fe ! i \<in> {0, 1}"
    proof (intro allI impI)
      fix i assume i: "i < length (time ev)"
      have "row_ok (ra_center obs) (dec_center obs) (length (sources obs)) (event_row ev i)"
        using p i rowD by blast
      then have t: "0 \<le> time ev ! i \<and> time ev ! i < 1000"
        by (simp add: row_ok_def event_row_def)
      have "grades ! i < 5"
        using ok_choice_range [OF assms(1) c(1), of "grades ! i"] i lg by simp
      then have gr: "grades ! i \<in> {0, 1, 2, 3, 4}" by auto
      have "picks ! i < 2"
        using ok_choice_range [OF assms(1) c(2), of "picks ! i"] i lp by simp
      then have "picks ! i = 0 \<or> picks ! i = 1" by auto
      then have st: "[0, 1::nat] ! (picks ! i) \<in> {0, 1}" by auto
      show "0 \<le> time fe ! i \<and> time fe ! i < exposure_time \<and> 0 \<le> frame fe ! i \<and>
        frame fe ! i \<le> \<lfloor>exposure_time / (26 / 10)\<rfloor> \<and> grade fe ! i \<in> {0, 1, 2, 3, 4} \<and>
        status fe ! i \<in> {0, 1}"
        using t trunc_frame [of "time ev ! i"] gr st i lg lp
        by (simp add: c(3) exposure_time_def)
    qed
    have "time fe = time ev" by (simp add: c(3))
    then show ?thesis
      using rows lg lp unfolding \<open>file = _\<close>
      by (simp add: c(3) write_fits_file_def)
  qed
qed

theorem times_frames_grades_status_in_range_witness:
  "\<exists>file out g'.
     generate_observation counter_random ''2025-07-01T12:00:00''
       \<lparr>obs_id = ''TEST001'', ra_center = 30, dec_center = 10,
        sources = [(3005 / 100, 1003 / 100, 150 / 1000), (2995 / 100, 1008 / 100, 80 / 1000)]\<rparr> 0 =
       Inr (file, out, g') \<and>
     time (table file) = [100, 300, 400, 500] \<and> frame (table file) = [38, 115, 153, 192] \<and>
     grade (table file) = [1, 2, 3, 4] \<and> status (table file) = [1, 0, 1, 0] \<and>
     map_of (primary_header file) ''TSTART'' = Some (CardReal 0) \<and>
     map_of (primary_header file) ''TSTOP'' = Some (CardReal 1000) \<and>
     0 \<le> time (table file) ! 3 \<and> time (table file) ! 3 < exposure_time \<and>
     frame (table file) ! 3 \<le> \<lfloor>exposure_time / (26 / 10)\<rfloor> \<and>
     \<lfloor>exposure_time / (26 / 10)\<rfloor> = 384"
  using times_frames_grades_status_in_range [OF counter_random_ok example_observation]
  unfolding example_observation by (simp add: write_fits_file_def exposure_time_def)

text \<open>
  C5: in the file of every generated observation the number of rows is the sum of the
  event counts announced for the sources plus the count announced for the background;
  for every id the number of rows carrying it is the count announced for it, id 0
  being the background and id i+1 the configured source number i; and the summary
  that \<open>main\<close> prints gives the same total, source and background counts.
\<close>

theorem source_ids_partition_rows:
  assumes "np_random_ok R"
    and "generate_observation R stamp obs g = Inr (file, out, g')"
  shows "length (source_id (table file)) = length (time (table file)) \<and>
         length (time (table file)) =
           sum_list (map (announced_events out) [1..<Suc (length (sources obs))]) +
           announced_events out 0 \<and>
         (\<forall>s. count_list (source_id (table file)) s = announced_events out s) \<and>
         (\<forall>i < length (time (table file)). source_id (table file) ! i \<le> length (sources obs)) \<and>
         (\<forall>j a d f k. PrintSource j a d f k \<in> set out \<longrightarrow>
            1 \<le> j \<and> j \<le> length (sources obs) \<and> sources obs ! (j - 1) = (a, d, f)) \<and>
         PrintEventSummary (length (time (table file)))
           (sum_list (map (announced_events out) [1..<Suc (length (sources obs))]))
           (announced_events out 0) \<in> set out"
using assms(2)
proof (cases rule: generate_observation_cases)
  case (1 ev out0 g1 fe)
  note p = create_simple_events_props [OF assms(1) 1(1)]
  let ?n = "length (sources obs)"
  let ?ids = "source_id ev"
  have fe: "source_id fe = ?ids" "time fe = time ev"
    using 1(2) by (cases rule: add_realistic_columns_cases, simp)+
  have tab: "table file = fe" by (simp add: 1(3))
  have len: "length ?ids = length (time ev)" using p by (simp add: wf_events_def)
  have ann: "announced_events out s = announced_events out0 s" for s
    by (simp add: 1(4)) (simp add: announced_events_def)
  have cnt: "count_list ?ids s = announced_events out s" for s
    using p ann by simp
  have bound: "\<forall>i < length (time ev). ?ids ! i \<le> ?n"
  proof (intro allI impI)
    fix i assume "i < length (time ev)"
    then have "row_ok (ra_center obs) (dec_center obs) ?n (event_row ev i)"
      using p rowD by blast
    then show "?ids ! i \<le> ?n" by (simp add: row_ok_def event_row_def)
  qed
  have "\<forall>s \<in> set ?ids. s \<le> ?n"
  proof
    fix s assume "s \<in> set ?ids"
    then obtain i where "i < length ?ids" "?ids ! i = s" by (auto simp: in_set_conv_nth)
    then show "s \<le> ?n" using bound len by auto
  qed
  note length_as_counts [OF this]
  moreover have "count_list ?ids = announced_events out" by (rule ext) (rule cnt)
  ultimately have total: "length (time ev) =
      sum_list (map (announced_events out) [1..<Suc ?n]) + announced_events out 0"
    using len by (simp only:)
  have lines: "\<forall>j a d f k. PrintSource j a d f k \<in> set out \<longrightarrow>
      1 \<le> j \<and> j \<le> ?n \<and> sources obs ! (j - 1) = (a, d, f)"
  proof (intro allI impI)
    fix j a d f k assume "PrintSource j a d f k \<in> set out"
    then have mem: "PrintSource j a d f k \<in> set out0" by (auto simp: 1(4))
    from 1(1) obtain raw where
      "collect_events R (sources obs) (ra_center obs) (dec_center obs) (init R g) = Inr (raw, out0, g1)"
      by (cases rule: create_simple_events_cases)
    from collect_events_lines [OF this mem]
    show "1 \<le> j \<and> j \<le> ?n \<and> sources obs ! (j - 1) = (a, d, f)" .
  qed
  have bg: "length (filter (\<lambda>s. s = 0) ?ids) = announced_events out 0"
    using cnt [of 0] by (simp add: count_zero_filter)
  have "length (filter (\<lambda>s. s > 0) ?ids) + announced_events out 0 = length (time ev)"
    using count_pos_filter [of ?ids] cnt [of 0] len by simp
  then have src: "length (filter (\<lambda>s. s > 0) ?ids) =
      sum_list (map (announced_events out) [1..<Suc ?n])"
    using total by simp
  have summary: "PrintEventSummary (length (time ev))
      (sum_list (map (announced_events out) [1..<Suc ?n])) (announced_events out 0) \<in> set out"
  proof -
    have "PrintEventSummary (length (time fe)) (length (filter (\<lambda>s. s > 0) (source_id fe)))
        (length (filter (\<lambda>s. s = 0) (source_id fe))) \<in> set out"
      unfolding 1(4) by simp
    then show ?thesis unfolding fe src bg .
  qed
  show ?thesis
    unfolding tab fe
  proof (intro conjI)
    show "length ?ids = length (time ev)" by (rule len)
    show "length (time ev) =
      sum_list (map (announced_events out) [1..<Suc ?n]) + announced_events out 0" by (rule total)
    show "\<forall>s. count_list ?ids s = announced_events out s" by (intro allI) (rule cnt)
    show "\<forall>i < length (time ev). ?ids ! i \<le> ?n" by (rule bound)
    show "\<forall>j a d f k. PrintSource j a d f k \<in> set out \<longrightarrow>
      1 \<le> j \<and> j \<le> ?n \<and> sources obs ! (j - 1) = (a, d, f)" by (rule lines)
    show "PrintEventSummary (length (time ev))
      (sum_list (map (announced_events out) [1..<Suc ?n])) (announced_events out 0) \<in> set out"
      by (rule summary)
  qed
qed

theorem source_ids_partition_rows_witness:
  "\<exists>file out g'.
     generate_observation counter_random ''2025-07-01T12:00:00''
       \<lparr>obs_id = ''TEST001'', ra_center = 30, dec_center = 10,
        sources = [(3005 / 100, 1003 / 100, 150 / 1000), (2995 / 100, 1008 / 100, 80 / 1000)]\<rparr> 0 =
       Inr (file, out, g') \<and>
     source_id (table file) = [2, 0, 2, 1] \<and> length (time (table file)) = 4 \<and>
     announced_events out 0 = 1 \<and> announced_events out 1 = 1 \<and> announced_events out 2 = 2 \<and>
     count_list (source_id (table file)) 2 = announced_events out 2 \<and>
     PrintEventSummary 4 3 1 \<in> set out"
  using source_ids_partition_rows [OF counter_random_ok example_observation]
  unfolding example_observation by (simp add: write_fits_file_def announced_events_def)



text \<open>
  C7: when the import of any third-party package raises ImportError, the process
  exits with status 1, \<open>main\<close> is never called, and the error's message is printed:
  in the program's own two lines for the packages inside the \<^verbatim>\<open>try\<close> block, in the
  interpreter's traceback for numpy, which is imported outside it.
\<close>

theorem missing_dependency_exits:
  assumes "importer p = Some msg"
  shows "exit_status (run_module R now g importer) = 1 \<and>
         main_result (run_module R now g importer) = None \<and>
         (\<exists>q m. importer q = Some m \<and>
            (diagnostics_out (run_module R now g importer) =
               [''Missing required packages: '' @ m,
                ''Install with: pip install astropy matplotlib''] \<or>
             diagnostics_err (run_module R now g importer) =
               traceback (''ImportError: '' @ m)))"
proof (cases "importer Numpy")
  case (Some m)
  then show ?thesis by (auto simp: run_module_def)
next
  case None
  then have "p \<in> set guarded_imports" using assms guarded_or_numpy [of p] by auto
  then have "try_imports importer guarded_imports \<noteq> None"
    using assms by (auto simp: try_imports_None)
  then obtain m where m: "try_imports importer guarded_imports = Some m" by auto
  from try_imports_Some [OF this] obtain q where "importer q = Some m" by auto
  then show ?thesis using None m by (auto simp: run_module_def)
qed

theorem missing_dependency_exits_witness:
  "(\<lambda>p. if p = AstropyIoFits then Some ''No module named astropy'' else None) AstropyIoFits =
     Some ''No module named astropy'' \<and>
   exit_status (run_module counter_random (\<lambda>k. ''2025-07-01T12:00:00'') 0
     (\<lambda>p. if p = AstropyIoFits then Some ''No module named astropy'' else None)) = 1 \<and>
   main_result (run_module counter_random (\<lambda>k. ''2025-07-01T12:00:00'') 0
     (\<lambda>p. if p = AstropyIoFits then Some ''No module named astropy'' else None)) = None \<and>
   diagnostics_out (run_module counter_random (\<lambda>k. ''2025-07-01T12:00:00'') 0
     (\<lambda>p. if p = AstropyIoFits then Some ''No module named astropy'' else None)) =
     [''Missing required packages: No module named astropy'',
      ''Install with: pip install astropy matplotlib'']"
  using missing_dependency_exits [of "\<lambda>p. if p = AstropyIoFits then Some ''No module named astropy'' else None"
      AstropyIoFits "''No module named astropy''" counter_random "\<lambda>k. ''2025-07-01T12:00:00''" 0]
  by (simp add: run_module_def guarded_imports_def)

text \<open>
  C6: the catalog that \<open>main\<close> writes is the two comment lines followed by one row
  per configured source, eight in all, in the fixed column format; read back as
  white-space separated decimal fields, every row gives the observation id, the
  source number and exactly the configured RA, DEC and flux.
\<close>

theorem catalog_rows_reproduce_sources:
  assumes "main R now g = Inr out"
  shows "catalog out =
           [''# MinieSASS Test Source Catalog'' @ [CHR 0x0A],
            ''# Format: OBS_ID  SOURCE_ID  RA_DEG  DEC_DEG  FLUX_CTS_PER_SEC'' @ [CHR 0x0A],
            ''TEST001   1   30.0500   10.0300    0.1500'' @ [CHR 0x0A],
            ''TEST001   2   29.9500   10.0800    0.0800'' @ [CHR 0x0A],
            ''TEST001   3   30.0800    9.9200    0.0400'' @ [CHR 0x0A],
            ''TEST001   4   29.9200    9.9500    0.0250'' @ [CHR 0x0A],
            ''TEST001   5   30.0200   10.1500    0.2000'' @ [CHR 0x0A],
            ''TEST002   1   45.0300   -4.9700    0.1200'' @ [CHR 0x0A],
            ''TEST002   2   44.9800   -5.0500    0.0600'' @ [CHR 0x0A],
            ''TEST002   3   45.1200   -4.8800    0.1800'' @ [CHR 0x0A]] \<and>
         length (drop 2 (catalog out)) =
           sum_list (map (\<lambda>obs. length (sources obs)) create_test_observations) \<and>
         length (drop 2 (catalog out)) = 8 \<and>
         map read_catalog_row (drop 2 (catalog out)) =
           map Some (configured_rows create_test_observations)"
proof -
  have c: "catalog out = write_catalog create_test_observations"
    using assms by (rule main_catalog)
  have "length (catalog_rows create_test_observations) = 8"
    unfolding catalog_rows_configured by simp
  then show ?thesis
    unfolding c drop_write_catalog
    using write_catalog_configured read_back_configured
      length_catalog_rows [of create_test_observations]
    by (simp only: simp_thms)
qed

theorem catalog_rows_reproduce_sources_witness:
  "\<exists>out. main counter_random (\<lambda>k. ''2025-07-01T12:00:00'') 0 = Inr out \<and>
     length (catalog out) = 10 \<and>
     catalog out ! 2 = ''TEST001   1   30.0500   10.0300    0.1500'' @ [CHR 0x0A] \<and>
     read_catalog_row (catalog out ! 2) = Some (''TEST001'', 1, 3005 / 100, 1003 / 100, 150 / 1000)"
proof -
  obtain out where out: "main counter_random (\<lambda>k. ''2025-07-01T12:00:00'') 0 = Inr out"
    using main_runs by blast
  have "read_catalog_row (''TEST001   1   30.0500   10.0300    0.1500'' @ [CHR 0x0A]) =
      Some (''TEST001'', 1, 3005 / 100, 1003 / 100, 150 / 1000)"
    by (simp add: read_defs)
  then show ?thesis
    using catalog_rows_reproduce_sources [OF out] out by (intro exI [of _ out]) simp
qed


text \<open>
  C9, as amended: two runs of the program, whatever the generator state and the clock
  readings they start from, give the same result (the same error, or the same event
  tables, catalog, printed lines and headers) once the DATE-OBS card, which records
  the time of the run, is left out of every primary header.
\<close>

theorem seeded_runs_agree_up_to_stamp:
  "reproducible_part (main R now g) = reproducible_part (main R now' g')"
proof -
  note s = generate_observations_stamp_free
    [of "[]" "[]" R now 0 create_test_observations "[]" g now' 0 g', simplified]
  show ?thesis
  proof (cases "generate_observations R now 0 create_test_observations [] [] g")
    case (Inl e)
    then have "generate_observations R now' 0 create_test_observations [] [] g' = Inl e"
      using s by (cases "generate_observations R now' 0 create_test_observations [] [] g'") auto
    then show ?thesis using Inl by (simp add: main_def reproducible_part_def)
  next
    case (Inr r)
    obtain fs lines g1 where r: "r = (fs, lines, g1)" by (cases r) auto
    from Inr r s obtain fs' g1' where
      "generate_observations R now' 0 create_test_observations [] [] g' = Inr (fs', lines, g1')"
      "map without_stamp fs = map without_stamp fs'"
      by (cases "generate_observations R now' 0 create_test_observations [] [] g'") auto
    then show ?thesis using Inr r by (simp add: main_def reproducible_part_def)
  qed
qed


text \<open>
  C9 as stated fails: two runs at different clock readings write different headers.
\<close>

theorem identical_headers_counterexample:
  "headers_of (main counter_random (\<lambda>k. ''2025-07-01T12:00:00'') 0) \<noteq>
   headers_of (main counter_random (\<lambda>k. ''2025-07-02T09:30:00'') 0)"
proof
  assume eq: "headers_of (main counter_random (\<lambda>k. ''2025-07-01T12:00:00'') 0) =
    headers_of (main counter_random (\<lambda>k. ''2025-07-02T09:30:00'') 0)"
  obtain a where a: "main counter_random (\<lambda>k. ''2025-07-01T12:00:00'') 0 = Inr a"
    using main_runs by blast
  obtain b where b: "main counter_random (\<lambda>k. ''2025-07-02T09:30:00'') 0 = Inr b"
    using main_runs by blast
  from headers_of_main [OF a] headers_of_main [OF b] eq
  show False by auto
qed

end
